theory Spec2Isabelle
  imports Main "HOL-Library.Multiset" "HOL-Library.AList"
begin

section \<open>UNO match engine (src/index.js): data model\<close>

text \<open>
  A card is the object literal \<open>{color, type, value}\<close> that \<open>createDeck\<close> builds.
  The strings the source uses for \<open>color\<close> and \<open>type\<close> form two closed sets, one
  constructor per string literal. \<open>value\<close> is a number or \<open>null\<close> (\<open>None\<close>).
\<close>

datatype cardColor = Red | Yellow | Green | Blue | WildColor

datatype cardType = Number | Skip | Reverse | DrawTwo | Wild | WildDrawFour

record card =
  color :: cardColor
  type :: cardType
  value' :: "int option"

text \<open>
  An array element. \<open>Array.prototype.pop\<close> on an empty array returns \<open>undefined\<close>,
  and the source pushes what it popped without looking at it, so every array of cards
  is an array of slots: \<open>Some c\<close> is a card, \<open>None\<close> is \<open>undefined\<close>.
\<close>

type_synonym slot = "card option"

datatype error = TypeError

subsection \<open>Play validator\<close>

text \<open>
  \<open>isValidPlay(card, topCard, logger)\<close>. Reading \<open>card.type\<close> of an undefined card,
  or \<open>topCard.color\<close> of a missing top card, throws a TypeError. \<open>===\<close> on the
  \<open>value\<close> fields is strict equality, under which \<open>null === null\<close> holds.
\<close>

definition isValidPlay :: "slot \<Rightarrow> slot \<Rightarrow> error + bool" where
  "isValidPlay crd topc =
     (case crd of
        None \<Rightarrow> Inl TypeError
      | Some c \<Rightarrow>
          if type c = Wild \<or> type c = WildDrawFour then Inr True
          else (case topc of
                  None \<Rightarrow> Inl TypeError
                | Some t \<Rightarrow>
                    (let colorMatch = (color c = color t);
                         valueMatch = (value' c = value' t);
                         actionMatch = (type c = type t \<and> type c \<noteq> Number)
                     in Inr (colorMatch \<or> valueMatch \<or> actionMatch))))"

text \<open>
  The legality rule in the words of the specification (section 4.3): wild cards are
  always legal; otherwise legal iff the color matches, or the numeric value matches, or
  the kind matches and is not \<open>number\<close>. A numeric value is a number, not \<open>null\<close>.
\<close>

definition isLegal_spec :: "card \<Rightarrow> card \<Rightarrow> bool" where
  "isLegal_spec c t =
     (type c = Wild \<or> type c = WildDrawFour \<or> color c = color t
      \<or> (value' c \<noteq> None \<and> value' c = value' t)
      \<or> (type c = type t \<and> type c \<noteq> Number))"

subsection \<open>Players, match state and outbound messages\<close>

text \<open>
  The player object that \<open>matchJoin\<close> creates.
\<close>

record player =
  userId :: string
  username :: string
  hand :: "slot list"
  ready :: bool
  calledUno :: bool
  score :: int

text \<open>
  The strings stored in \<open>gamePhase\<close>: \<open>"waiting"\<close> (\<open>matchInit\<close>), \<open>"playing"\<close>
  (\<open>startGame\<close>), \<open>"finished"\<close> (\<open>matchLeave\<close>) and \<open>"ended"\<close> (\<open>endGame\<close>).
\<close>

datatype phase = Waiting | Playing | Finished | Ended

datatype gameResult = Winner | Loser

datatype scoreReason = GameCompleted | OpponentLeft

record scoreEntry =
  entryUserId :: string
  entryUsername :: string
  entryScore :: int
  entryResult :: gameResult
  entryReason :: scoreReason

text \<open>
  The state object of \<open>matchInit\<close>. \<open>players\<close> is a JavaScript object keyed by
  user id; \<open>Object.keys\<close> lists string keys in insertion order (user ids are UUIDs,
  never array indices), so it is an association list with distinct keys: assignment to
  a present key replaces its value in place, assignment to a new key appends, and
  \<open>delete\<close> removes the entry. \<open>null\<close> and \<open>undefined\<close> are both \<open>None\<close>
  (in \<open>currentTurn\<close>, \<open>topCard\<close>, \<open>lastAction\<close>, \<open>turnStartTime\<close>,
  \<open>finalScores\<close>), and no player has the id \<open>"null"\<close> or \<open>"undefined"\<close>, so that
  \<open>state.players[null]\<close> is \<open>undefined\<close>.
  Times are milliseconds, as \<open>Date.now()\<close> returns them.
\<close>

record state =
  players :: "(string \<times> player) list"
  gameStarted :: bool
  currentTurn :: "string option"
  deck :: "slot list"
  discardPile :: "slot list"
  topCard :: slot
  direction :: int
  drawCount :: int
  lastAction :: "string option"
  gamePhase :: phase
  turnStartTime :: "int option"
  turnTimeLimit :: int
  finalScores :: "(string \<times> scoreEntry) list option"

record playerView =
  hand_count :: nat
  view_username :: string
  called_uno :: bool

record gameStateView =
  view_players :: "(string \<times> playerView) list"
  current_turn :: "string option"
  top_card :: slot
  view_direction :: int
  deck_count :: nat
  game_phase :: phase
  player_hands :: "(string \<times> slot list) list"

datatype playError = CardNotOwnedError | InvalidPlayError slot slot

datatype endReason = GameCompletedEnd | PlayerLeftEnd

text \<open>
  The JSON messages, one constructor per \<open>type\<close> tag. \<open>GameEnded\<close> carries
  \<open>reason\<close>, \<open>winner_id\<close>, \<open>winner_name\<close> (both absent in the message of
  \<open>matchLeave\<close>), \<open>final_scores\<close> and \<open>winner\<close>.
\<close>

datatype message =
    PlayerJoined string string nat
  | PlayerLeft string
  | GameStarted
  | GameState gameStateView
  | PlayerHand string "slot list" "nat list"
  | CardPlayed string slot nat
  | CardDrawn string nat
  | PlayerCalledUno string string
  | AutoPlay string slot nat
  | AutoDraw string nat
  | TimerUpdate "string option" int
  | GameEnded endReason "string option" "string option" "(string \<times> scoreEntry) list" "string option"
  | PlayCardError playError

text \<open>
  A call of the dispatcher: \<open>broadcastMessage(1, json)\<close> goes to every participant,
  \<open>broadcastMessageDeferred(1, json, recipients)\<close> to the listed ones.
\<close>

datatype packet = BroadcastMessage message | BroadcastMessageDeferred message "string list"

text \<open>
  What a handler leaves behind: the state as mutated so far, the dispatcher calls made
  so far, and the exception it ended with, if any. Mutations and messages that precede
  a throw stay, as they do in JavaScript.
\<close>

record outcome =
  rstate :: state
  rsent :: "packet list"
  rthrown :: "error option"

subsection \<open>Card and deck manager\<close>

text \<open>\<open>Array.prototype.pop\<close>: the last element, or \<open>undefined\<close> on an empty array.\<close>

definition pop :: "slot list \<Rightarrow> slot \<times> slot list" where
  "pop xs = (if xs = [] then (None, []) else (last xs, butlast xs))"

definition mkCard :: "cardColor \<Rightarrow> cardType \<Rightarrow> int option \<Rightarrow> card" where
  "mkCard c t v = \<lparr>color = c, type = t, value' = v\<rparr>"

definition colors :: "cardColor list" where
  "colors = [Red, Yellow, Green, Blue]"

definition actionTypes :: "cardType list" where
  "actionTypes = [Skip, Reverse, DrawTwo]"

text \<open>The cards \<open>createDeck\<close> pushes in one round of its loop over the colors.\<close>

definition colorCards :: "cardColor \<Rightarrow> card list" where
  "colorCards c =
     mkCard c Number (Some 0)
     # concat (map (\<lambda>num. [mkCard c Number (Some num), mkCard c Number (Some num)]) [1..9])
     @ concat (map (\<lambda>a. [mkCard c a None, mkCard c a None]) actionTypes)"

definition createDeck :: "slot list" where
  "createDeck =
     map Some (concat (map colorCards colors)
               @ concat (replicate 4 [mkCard WildColor Wild None,
                                      mkCard WildColor WildDrawFour None]))"

text \<open>
  \<open>shuffleDeck\<close> (Fisher-Yates). The random source is a parameter: \<open>rnd i\<close> is the
  number drawn in the round of index \<open>i\<close>, and \<open>rnd i mod (i + 1)\<close> is
  \<open>Math.floor(Math.random() * (i + 1))\<close>. The loop runs \<open>i\<close> from
  \<open>length - 1\<close> down to \<open>1\<close>.
\<close>

fun shuffleLoop :: "(nat \<Rightarrow> nat) \<Rightarrow> nat \<Rightarrow> 'a list \<Rightarrow> 'a list" where
  "shuffleLoop rnd 0 xs = xs"
| "shuffleLoop rnd (Suc k) xs =
     (let i = Suc k; j = rnd i mod (i + 1); temp = xs ! i
      in shuffleLoop rnd k ((xs[i := xs ! j])[j := temp]))"

definition shuffleDeck :: "(nat \<Rightarrow> nat) \<Rightarrow> 'a list \<Rightarrow> 'a list" where
  "shuffleDeck rnd xs = shuffleLoop rnd (length xs - 1) xs"

text \<open>
  \<open>reshuffleDeck\<close>: the local \<open>topCard\<close> is what \<open>discardPile.pop()\<close> returns; the
  deck is overwritten by a copy of the rest of the discard pile.
\<close>

definition reshuffleDeck :: "(nat \<Rightarrow> nat) \<Rightarrow> state \<Rightarrow> state" where
  "reshuffleDeck rnd s =
     (let (topc, rest) = pop (discardPile s)
      in s\<lparr>deck := shuffleDeck rnd rest, discardPile := [topc]\<rparr>)"

subsection \<open>Turn controller\<close>

text \<open>\<open>Array.prototype.indexOf\<close>: the first index of the element, or \<open>-1\<close>.\<close>

primrec indexOf :: "'a list \<Rightarrow> 'a \<Rightarrow> int" where
  "indexOf [] x = -1"
| "indexOf (y # ys) x = (if y = x then 0 else (let r = indexOf ys x in if r < 0 then -1 else r + 1))"

text \<open>An array read \<open>xs[i]\<close>: \<open>undefined\<close> outside the array.\<close>

definition arrayAt :: "'a list \<Rightarrow> int \<Rightarrow> 'a option" where
  "arrayAt xs i = (if 0 \<le> i \<and> i < int (length xs) then Some (xs ! nat i) else None)"

text \<open>
  The remainder operator \<open>%\<close> on integers: the sign follows the dividend. The divisor
  \<open>0\<close> gives \<open>NaN\<close>, which the caller handles.
\<close>

definition jsRem :: "int \<Rightarrow> int \<Rightarrow> int" where
  "jsRem a b = sgn a * (\<bar>a\<bar> mod \<bar>b\<bar>)"

text \<open>
  \<open>advanceTurn\<close>. \<open>now\<close> is the value of \<open>Date.now()\<close>. With no player the index
  is \<open>NaN\<close> and \<open>playerIds[NaN]\<close> is \<open>undefined\<close>.
\<close>

definition advanceTurn :: "int \<Rightarrow> state \<Rightarrow> state" where
  "advanceTurn now s =
     (let playerIds = map fst (players s);
          currentIndex = (case currentTurn s of None \<Rightarrow> -1 | Some k \<Rightarrow> indexOf playerIds k);
          n = int (length playerIds);
          newIndex = (if direction s = 1 then jsRem (currentIndex + 1) n
                      else jsRem (currentIndex - 1 + n) n)
      in s\<lparr>currentTurn := (if n = 0 then None else arrayAt playerIds newIndex),
            turnStartTime := Some now\<rparr>)"

text \<open>
  The loop \<open>for (i = 0; i < k; i++) if (state.deck.length > 0)
  state.players[nextPlayerId].hand.push(state.deck.pop())\<close> of \<open>applyCardEffects\<close>.
  The callee \<open>state.players[nextPlayerId].hand.push\<close> is evaluated before its
  argument, so a missing player throws before the deck is popped.
\<close>

fun forcedDraw :: "nat \<Rightarrow> string option \<Rightarrow> state \<Rightarrow> state \<times> error option" where
  "forcedDraw 0 nextPlayerId s = (s, None)"
| "forcedDraw (Suc k) nextPlayerId s =
     (if length (deck s) > 0 then
        (case nextPlayerId of
           None \<Rightarrow> (s, Some TypeError)
         | Some pid \<Rightarrow>
             (case map_of (players s) pid of
                None \<Rightarrow> (s, Some TypeError)
              | Some p \<Rightarrow>
                  (let (c, d) = pop (deck s)
                   in forcedDraw k nextPlayerId
                        (s\<lparr>deck := d,
                           players := AList.update pid (p\<lparr>hand := hand p @ [c]\<rparr>) (players s)\<rparr>))))
      else forcedDraw k nextPlayerId s)"

definition applyCardEffects :: "int \<Rightarrow> state \<Rightarrow> slot \<Rightarrow> state \<times> error option" where
  "applyCardEffects now s crd =
     (case crd of
        None \<Rightarrow> (s, Some TypeError)
      | Some c \<Rightarrow>
          if type c = Skip then (advanceTurn now s, None)
          else if type c = Reverse then (s\<lparr>direction := direction s * -1\<rparr>, None)
          else if type c = DrawTwo then
            (let s1 = advanceTurn now s in forcedDraw 2 (currentTurn s1) s1)
          else if type c = WildDrawFour then
            (let s1 = advanceTurn now s in forcedDraw 4 (currentTurn s1) s1)
          else (s, None))"

subsection \<open>Broadcast of the game state\<close>

text \<open>The loop of \<open>getPlayableCards\<close> (and of \<open>handleAutoPlay\<close>) over the hand, from index \<open>i\<close>.\<close>

fun playableIndices :: "slot list \<Rightarrow> slot \<Rightarrow> nat \<Rightarrow> error + nat list" where
  "playableIndices [] topc i = Inr []"
| "playableIndices (c # cs) topc i =
     (case isValidPlay c topc of
        Inl e \<Rightarrow> Inl e
      | Inr isValid \<Rightarrow>
          (case playableIndices cs topc (Suc i) of
             Inl e \<Rightarrow> Inl e
           | Inr r \<Rightarrow> Inr (if isValid then i # r else r)))"

definition getPlayableCards :: "state \<Rightarrow> string \<Rightarrow> error + nat list" where
  "getPlayableCards s playerId =
     (case map_of (players s) playerId of
        None \<Rightarrow> Inl TypeError
      | Some p \<Rightarrow> if topCard s = None then Inr [] else playableIndices (hand p) (topCard s) 0)"

definition gameStateMessage :: "state \<Rightarrow> message" where
  "gameStateMessage s =
     GameState
       \<lparr>view_players =
          map (\<lambda>(pid, p). (pid, \<lparr>hand_count = length (hand p), view_username = username p,
                                   called_uno = calledUno p\<rparr>)) (players s),
        current_turn = currentTurn s,
        top_card = topCard s,
        view_direction = direction s,
        deck_count = length (deck s),
        game_phase = gamePhase s,
        player_hands = map (\<lambda>(pid, p). (pid, hand p)) (players s)\<rparr>"

text \<open>
  The second loop of \<open>broadcastGameState\<close>: one \<open>player_hand\<close> message per player,
  in key order; an exception of \<open>getPlayableCards\<close> ends it.
\<close>

fun sendHands :: "state \<Rightarrow> (string \<times> player) list \<Rightarrow> packet list \<times> error option" where
  "sendHands s [] = ([], None)"
| "sendHands s ((pid, p) # ps) =
     (case getPlayableCards s pid of
        Inl e \<Rightarrow> ([], Some e)
      | Inr playable \<Rightarrow>
          (let (ms, e) = sendHands s ps
           in (BroadcastMessage (PlayerHand pid (hand p) playable) # ms, e)))"

definition broadcastGameState :: "state \<Rightarrow> packet list \<times> error option" where
  "broadcastGameState s =
     (let (ms, e) = sendHands s (players s)
      in (BroadcastMessage (gameStateMessage s) # ms, e))"

subsection \<open>Score calculator\<close>

definition cardPoints :: "card \<Rightarrow> int" where
  "cardPoints c =
     (if type c = Number then (case value' c of None \<Rightarrow> 0 | Some v \<Rightarrow> v)
      else if type c = Skip \<or> type c = Reverse \<or> type c = DrawTwo then 20
      else if type c = Wild \<or> type c = WildDrawFour then 50
      else 0)"

text \<open>
  The inner loop of \<open>endGame\<close> over one hand, \<open>cardValue\<close> being the running sum
  (\<open>cardValue += card.value\<close> adds \<open>0\<close> for \<open>null\<close>). \<open>card.type\<close> of an
  undefined entry throws.
\<close>

fun handValue :: "slot list \<Rightarrow> int \<Rightarrow> error + int" where
  "handValue [] cardValue = Inr cardValue"
| "handValue (None # cs) cardValue = Inl TypeError"
| "handValue (Some c # cs) cardValue = handValue cs (cardValue + cardPoints c)"

text \<open>The outer loop of \<open>endGame\<close>: \<open>scores\<close> and \<open>totalOtherCards\<close>.\<close>

fun scoreLoop ::
  "(string \<times> player) list \<Rightarrow> string \<Rightarrow> (string \<times> int) list \<Rightarrow> int
   \<Rightarrow> error + ((string \<times> int) list \<times> int)" where
  "scoreLoop [] winnerId scores totalOtherCards = Inr (scores, totalOtherCards)"
| "scoreLoop ((playerId, p) # ps) winnerId scores totalOtherCards =
     (case handValue (hand p) 0 of
        Inl e \<Rightarrow> Inl e
      | Inr cardValue \<Rightarrow>
          if playerId = winnerId
          then scoreLoop ps winnerId (AList.update playerId 100 scores) totalOtherCards
          else scoreLoop ps winnerId (AList.update playerId (- cardValue) scores)
                 (totalOtherCards + cardValue))"

text \<open>
  \<open>endGame\<close>. When \<open>winnerId\<close> is no key of \<open>scores\<close> the source stores \<open>NaN\<close>
  under it, an entry that is never read (the final scores are built over the players'
  keys); the model leaves \<open>scores\<close> as it is there. Every player's key is in
  \<open>scores\<close> after the loop, so the default \<open>0\<close> of the lookup is never taken. The
  leaderboard writes go to an external sink inside a \<open>try\<close>/\<open>catch\<close> and touch
  neither the state nor the dispatcher; they are not modelled.
\<close>

definition endGame :: "state \<Rightarrow> string \<Rightarrow> outcome" where
  "endGame s winnerId =
     (let s1 = s\<lparr>gamePhase := Ended\<rparr>
      in case scoreLoop (players s1) winnerId [] 0 of
           Inl e \<Rightarrow> \<lparr>rstate = s1, rsent = [], rthrown = Some e\<rparr>
         | Inr (scores0, totalOtherCards) \<Rightarrow>
             (let scores = (case map_of scores0 winnerId of
                              None \<Rightarrow> scores0
                            | Some v \<Rightarrow> AList.update winnerId (v + totalOtherCards) scores0);
                  fs = map (\<lambda>(playerId, p).
                              (playerId,
                               \<lparr>entryUserId = playerId, entryUsername = username p,
                                entryScore = (case map_of scores playerId of None \<Rightarrow> 0 | Some v \<Rightarrow> v),
                                entryResult = (if playerId = winnerId then Winner else Loser),
                                entryReason = GameCompleted\<rparr>)) (players s1);
                  s2 = s1\<lparr>finalScores := Some fs\<rparr>
              in case map_of (players s2) winnerId of
                   None \<Rightarrow> \<lparr>rstate = s2, rsent = [], rthrown = Some TypeError\<rparr>
                 | Some w \<Rightarrow>
                     \<lparr>rstate = s2,
                      rsent = [BroadcastMessage
                                 (GameEnded GameCompletedEnd (Some winnerId) (Some (username w)) fs
                                    (Some winnerId))],
                      rthrown = None\<rparr>))"

subsection \<open>Per-action handlers\<close>

text \<open>
  The search loop of \<open>handlePlayCard\<close> for the card named by the message
  (\<open>data.card\<close>, a card or missing), from index \<open>i\<close>: \<open>Inr None\<close> is
  \<open>cardIndex === -1\<close>. \<open>playerHand[i].color\<close> is read before \<open>data.card.color\<close>.
\<close>

fun findCardIndex :: "slot list \<Rightarrow> slot \<Rightarrow> nat \<Rightarrow> error + nat option" where
  "findCardIndex [] dcard i = Inr None"
| "findCardIndex (h # hs) dcard i =
     (case h of
        None \<Rightarrow> Inl TypeError
      | Some hc \<Rightarrow>
          (case dcard of
             None \<Rightarrow> Inl TypeError
           | Some c \<Rightarrow>
               if color hc = color c \<and> type hc = type c \<and> value' hc = value' c
               then Inr (Some i)
               else findCardIndex hs dcard (Suc i)))"

text \<open>\<open>xs.splice(i, 1)[0]\<close>: the removed element (or \<open>undefined\<close>) and the array left.\<close>

definition spliceOne :: "nat \<Rightarrow> slot list \<Rightarrow> slot \<times> slot list" where
  "spliceOne i xs = (if i < length xs then (xs ! i, take i xs @ drop (Suc i) xs) else (None, xs))"

text \<open>\<open>state.players[playerId].hand.length\<close>, read where the player is known to exist.\<close>

definition handLength :: "state \<Rightarrow> string \<Rightarrow> nat" where
  "handLength s playerId = (case map_of (players s) playerId of None \<Rightarrow> 0 | Some p \<Rightarrow> length (hand p))"

text \<open>
  The common tail of \<open>handlePlayCard\<close> and \<open>handleAutoPlay\<close> once the index of the
  card is known, which the source writes out twice: remove the card, make it the top
  card, end the game on an empty hand, else apply the effects, advance, and broadcast
  the state and the event \<open>ev\<close> (\<open>card_played\<close> or \<open>auto_play\<close>).
\<close>

definition playAt ::
  "(string \<Rightarrow> slot \<Rightarrow> nat \<Rightarrow> message) \<Rightarrow> int \<Rightarrow> state \<Rightarrow> string \<Rightarrow> player \<Rightarrow> nat \<Rightarrow> outcome" where
  "playAt ev now s playerId p cardIndex =
     (let (playedCard, newHand) = spliceOne cardIndex (hand p);
          s1 = s\<lparr>players := AList.update playerId (p\<lparr>hand := newHand\<rparr>) (players s),
                 topCard := playedCard,
                 discardPile := discardPile s @ [playedCard]\<rparr>
      in if length newHand = 0 then endGame s1 playerId
         else (case applyCardEffects now s1 playedCard of
                 (s2, Some e) \<Rightarrow> \<lparr>rstate = s2, rsent = [], rthrown = Some e\<rparr>
               | (s2, None) \<Rightarrow>
                   (let s3 = advanceTurn now s2
                    in case broadcastGameState s3 of
                         (ms, Some e) \<Rightarrow> \<lparr>rstate = s3, rsent = ms, rthrown = Some e\<rparr>
                       | (ms, None) \<Rightarrow>
                           \<lparr>rstate = s3,
                            rsent = ms @ [BroadcastMessage (ev playerId playedCard (handLength s3 playerId))],
                            rthrown = None\<rparr>)))"

definition handlePlayCard :: "int \<Rightarrow> state \<Rightarrow> string \<Rightarrow> slot \<Rightarrow> outcome" where
  "handlePlayCard now s playerId dcard =
     (if currentTurn s \<noteq> Some playerId then \<lparr>rstate = s, rsent = [], rthrown = None\<rparr>
      else (case map_of (players s) playerId of
              None \<Rightarrow> \<lparr>rstate = s, rsent = [], rthrown = Some TypeError\<rparr>
            | Some p \<Rightarrow>
                (case findCardIndex (hand p) dcard 0 of
                   Inl e \<Rightarrow> \<lparr>rstate = s, rsent = [], rthrown = Some e\<rparr>
                 | Inr None \<Rightarrow>
                     \<lparr>rstate = s,
                      rsent = [BroadcastMessageDeferred (PlayCardError CardNotOwnedError) [playerId]],
                      rthrown = None\<rparr>
                 | Inr (Some cardIndex) \<Rightarrow>
                     (case isValidPlay dcard (topCard s) of
                        Inl e \<Rightarrow> \<lparr>rstate = s, rsent = [], rthrown = Some e\<rparr>
                      | Inr isValid \<Rightarrow>
                          if \<not> isValid then
                            \<lparr>rstate = s,
                             rsent = [BroadcastMessageDeferred
                                        (PlayCardError (InvalidPlayError (topCard s) dcard)) [playerId]],
                             rthrown = None\<rparr>
                          else playAt CardPlayed now s playerId p cardIndex))))"

text \<open>
  The draw of \<open>handleDrawCard\<close> and of the second branch of \<open>handleAutoPlay\<close>:
  reshuffle on an empty deck, pop, push onto the hand, advance, broadcast the state and
  the event \<open>ev\<close> (\<open>card_drawn\<close> or \<open>auto_draw\<close>).
\<close>

definition drawFor ::
  "(string \<Rightarrow> nat \<Rightarrow> message) \<Rightarrow> (nat \<Rightarrow> nat) \<Rightarrow> int \<Rightarrow> state \<Rightarrow> string \<Rightarrow> outcome" where
  "drawFor ev rnd now s playerId =
     (let s1 = (if length (deck s) = 0 then reshuffleDeck rnd s else s);
          (drawnCard, d) = pop (deck s1);
          s2 = s1\<lparr>deck := d\<rparr>
      in case map_of (players s2) playerId of
           None \<Rightarrow> \<lparr>rstate = s2, rsent = [], rthrown = Some TypeError\<rparr>
         | Some p \<Rightarrow>
             (let s3 = s2\<lparr>players := AList.update playerId (p\<lparr>hand := hand p @ [drawnCard]\<rparr>) (players s2)\<rparr>;
                  s4 = advanceTurn now s3
              in case broadcastGameState s4 of
                   (ms, Some e) \<Rightarrow> \<lparr>rstate = s4, rsent = ms, rthrown = Some e\<rparr>
                 | (ms, None) \<Rightarrow>
                     \<lparr>rstate = s4,
                      rsent = ms @ [BroadcastMessage (ev playerId (handLength s4 playerId))],
                      rthrown = None\<rparr>))"

definition handleDrawCard :: "(nat \<Rightarrow> nat) \<Rightarrow> int \<Rightarrow> state \<Rightarrow> string \<Rightarrow> outcome" where
  "handleDrawCard rnd now s playerId =
     (if currentTurn s \<noteq> Some playerId then \<lparr>rstate = s, rsent = [], rthrown = None\<rparr>
      else drawFor CardDrawn rnd now s playerId)"

definition handleCallUno :: "state \<Rightarrow> string \<Rightarrow> outcome" where
  "handleCallUno s playerId =
     (case map_of (players s) playerId of
        None \<Rightarrow> \<lparr>rstate = s, rsent = [], rthrown = Some TypeError\<rparr>
      | Some p \<Rightarrow>
          \<lparr>rstate = s\<lparr>players := AList.update playerId (p\<lparr>calledUno := True\<rparr>) (players s)\<rparr>,
           rsent = [BroadcastMessage (PlayerCalledUno playerId (username p))],
           rthrown = None\<rparr>)"

definition handlePassTurn :: "int \<Rightarrow> state \<Rightarrow> string \<Rightarrow> outcome" where
  "handlePassTurn now s playerId =
     (if currentTurn s \<noteq> Some playerId then \<lparr>rstate = s, rsent = [], rthrown = None\<rparr>
      else (let s1 = advanceTurn now s
            in case broadcastGameState s1 of
                 (ms, e) \<Rightarrow> \<lparr>rstate = s1, rsent = ms, rthrown = e\<rparr>))"

subsection \<open>Turn timer and auto-play\<close>

definition handleAutoPlay :: "(nat \<Rightarrow> nat) \<Rightarrow> int \<Rightarrow> state \<Rightarrow> outcome" where
  "handleAutoPlay rnd now s =
     (case currentTurn s of
        None \<Rightarrow> \<lparr>rstate = s, rsent = [], rthrown = Some TypeError\<rparr>
      | Some currentPlayerId \<Rightarrow>
          (case map_of (players s) currentPlayerId of
             None \<Rightarrow> \<lparr>rstate = s, rsent = [], rthrown = Some TypeError\<rparr>
           | Some p \<Rightarrow>
               (case playableIndices (hand p) (topCard s) 0 of
                  Inl e \<Rightarrow> \<lparr>rstate = s, rsent = [], rthrown = Some e\<rparr>
                | Inr [] \<Rightarrow> drawFor AutoDraw rnd now s currentPlayerId
                | Inr (cardIndex # _) \<Rightarrow> playAt AutoPlay now s currentPlayerId p cardIndex)))"

text \<open>
  The branch \<open>handleAutoPlay\<close> takes is the draw: there is a player to act, and the
  loop over the hand finds no card that \<open>isValidPlay\<close> accepts
  (\<open>playableCards.length > 0\<close> is false).
\<close>

definition autoPlayDraws :: "state \<Rightarrow> bool" where
  "autoPlayDraws s =
     (case currentTurn s of
        None \<Rightarrow> False
      | Some currentPlayerId \<Rightarrow>
          (case map_of (players s) currentPlayerId of
             None \<Rightarrow> False
           | Some p \<Rightarrow> playableIndices (hand p) (topCard s) 0 = Inr []))"

subsection \<open>Match lifecycle\<close>

text \<open>The inner loop of \<open>startGame\<close> that pops \<open>k\<close> cards into \<open>newHand\<close>.\<close>

fun dealHand :: "nat \<Rightarrow> slot list \<Rightarrow> slot list \<times> slot list" where
  "dealHand 0 d = ([], d)"
| "dealHand (Suc k) d =
     (let (c, d1) = pop d; (newHand, d2) = dealHand k d1 in (c # newHand, d2))"

text \<open>
  The dealing loop over the players, in key order: seven cards each. The loop before it
  empties every hand, which the deal overwrites; its early \<open>return\<close> for a key without
  a player object cannot be taken, the keys being those of \<open>state.players\<close>.
\<close>

fun dealAll :: "(string \<times> player) list \<Rightarrow> slot list \<Rightarrow> (string \<times> player) list \<times> slot list" where
  "dealAll [] d = ([], d)"
| "dealAll ((pid, p) # ps) d =
     (let (newHand, d1) = dealHand 7 d; (ps', d2) = dealAll ps d1
      in ((pid, p\<lparr>hand := newHand\<rparr>) # ps', d2))"

text \<open>
  The initial flip \<open>do { state.topCard = state.deck.pop(); } while (wild)\<close>: the top
  card found, the deck left, and the TypeError of \<open>state.topCard.type\<close> when the deck
  runs out. A wild card popped here is put nowhere.
\<close>

function flipFirst :: "slot list \<Rightarrow> slot \<times> slot list \<times> error option" where
  "flipFirst d =
     (case pop d of
        (None, d1) \<Rightarrow> (None, d1, Some TypeError)
      | (Some c, d1) \<Rightarrow>
          if type c = Wild \<or> type c = WildDrawFour then flipFirst d1 else (Some c, d1, None))"
  by pat_completeness auto
termination
  by (relation "measure length") (auto simp: pop_def split: if_splits)

declare flipFirst.simps [simp del]

definition startGame :: "(nat \<Rightarrow> nat) \<Rightarrow> int \<Rightarrow> state \<Rightarrow> outcome" where
  "startGame rnd now s =
     (let d0 = shuffleDeck rnd createDeck;
          (ps, d1) = dealAll (players s) d0
      in case flipFirst d1 of
           (t, d2, Some e) \<Rightarrow>
             \<lparr>rstate = s\<lparr>deck := d2, players := ps, topCard := t\<rparr>, rsent = [], rthrown = Some e\<rparr>
         | (t, d2, None) \<Rightarrow>
             (let s1 = s\<lparr>deck := d2, players := ps, topCard := t, discardPile := [t],
                         currentTurn := arrayAt (map fst ps) 0, direction := 1,
                         gameStarted := True, gamePhase := Playing,
                         turnStartTime := Some now\<rparr>
              in case broadcastGameState s1 of
                   (ms, Some e) \<Rightarrow> \<lparr>rstate = s1, rsent = ms, rthrown = Some e\<rparr>
                 | (ms, None) \<Rightarrow>
                     \<lparr>rstate = s1, rsent = ms @ [BroadcastMessage GameStarted], rthrown = None\<rparr>))"

definition matchInit :: state where
  "matchInit =
     \<lparr>players = [], gameStarted = False, currentTurn = None, deck = [], discardPile = [],
      topCard = None, direction = 1, drawCount = 0, lastAction = None, gamePhase = Waiting,
      turnStartTime = None, turnTimeLimit = 15, finalScores = None\<rparr>"

text \<open>\<open>matchJoinAttempt\<close>: whether the join is accepted.\<close>

definition matchJoinAttempt :: "state \<Rightarrow> bool" where
  "matchJoinAttempt s = (\<not> length (players s) \<ge> 2)"

text \<open>The loop of \<open>matchJoin\<close> over the presences \<open>(userId, username)\<close>.\<close>

fun joinLoop :: "(string \<times> string) list \<Rightarrow> state \<Rightarrow> state \<times> packet list" where
  "joinLoop [] s = (s, [])"
| "joinLoop ((uid, uname) # ps) s =
     (let s1 = s\<lparr>players := AList.update uid
                    \<lparr>userId = uid, username = uname, hand = [], ready = False,
                     calledUno = False, score = 0\<rparr> (players s)\<rparr>;
          (s2, ms) = joinLoop ps s1
      in (s2, BroadcastMessage (PlayerJoined uid uname (length (players s1))) # ms))"

definition matchJoin :: "(nat \<Rightarrow> nat) \<Rightarrow> int \<Rightarrow> state \<Rightarrow> (string \<times> string) list \<Rightarrow> outcome" where
  "matchJoin rnd now s presences =
     (let (s1, ms) = joinLoop presences s
      in if length (players s1) = 2 \<and> \<not> gameStarted s1
         then (let r = startGame rnd now s1 in r\<lparr>rsent := ms @ rsent r\<rparr>)
         else \<lparr>rstate = s1, rsent = ms, rthrown = None\<rparr>)"

text \<open>The loop of \<open>matchLeave\<close> over the user ids of the leaving presences.\<close>

fun leaveLoop :: "string list \<Rightarrow> state \<Rightarrow> state \<times> packet list" where
  "leaveLoop [] s = (s, [])"
| "leaveLoop (uid # us) s =
     (let (s1, ms) = leaveLoop us (s\<lparr>players := AList.delete uid (players s)\<rparr>)
      in (s1, BroadcastMessage (PlayerLeft uid) # ms))"

definition matchLeave :: "state \<Rightarrow> string list \<Rightarrow> outcome" where
  "matchLeave s presences =
     (let (s1, ms) = leaveLoop presences s
      in if length (players s1) < 2 \<and> gameStarted s1 then
           (let fs = (case players s1 of
                        [(winnerId, w)] \<Rightarrow>
                          [(winnerId, \<lparr>entryUserId = winnerId, entryUsername = username w,
                                       entryScore = 100, entryResult = Winner,
                                       entryReason = OpponentLeft\<rparr>)]
                      | _ \<Rightarrow> []);
                s2 = s1\<lparr>gamePhase := Finished, finalScores := Some fs\<rparr>
            in \<lparr>rstate = s2,
                rsent = ms @ [BroadcastMessage
                                (GameEnded PlayerLeftEnd None None fs
                                   (case players s1 of [(winnerId, w)] \<Rightarrow> Some winnerId | _ \<Rightarrow> None))],
                rthrown = None\<rparr>)
         else \<lparr>rstate = s1, rsent = ms, rthrown = None\<rparr>)"

subsection \<open>Match loop\<close>

text \<open>
  An inbound message after \<open>JSON.parse\<close>: its \<open>type\<close> tag with the card of
  \<open>play_card\<close>; \<open>Unparseable\<close> is a payload on which the parse throws.
\<close>

datatype action = PlayCard slot | DrawCard | CallUno | PassTurn | UnknownType | Unparseable

definition dispatch :: "(nat \<Rightarrow> nat) \<Rightarrow> int \<Rightarrow> state \<Rightarrow> string \<Rightarrow> action \<Rightarrow> outcome" where
  "dispatch rnd now s senderId a =
     (case a of
        PlayCard c \<Rightarrow> handlePlayCard now s senderId c
      | DrawCard \<Rightarrow> handleDrawCard rnd now s senderId
      | CallUno \<Rightarrow> handleCallUno s senderId
      | PassTurn \<Rightarrow> handlePassTurn now s senderId
      | UnknownType \<Rightarrow> \<lparr>rstate = s, rsent = [], rthrown = None\<rparr>
      | Unparseable \<Rightarrow> \<lparr>rstate = s, rsent = [], rthrown = Some TypeError\<rparr>)"

text \<open>
  The message loop of \<open>matchLoop\<close>. The body of each round is inside
  \<open>try\<close>/\<open>catch\<close>: an exception of a handler is logged and dropped, what the
  handler did before it stays. \<open>rnd k\<close> is the random source of the round of index
  \<open>k\<close>.
\<close>

fun processMessages ::
  "(nat \<Rightarrow> nat \<Rightarrow> nat) \<Rightarrow> int \<Rightarrow> nat \<Rightarrow> (string \<times> action) list \<Rightarrow> state \<Rightarrow> state \<times> packet list" where
  "processMessages rnd now k [] s = (s, [])"
| "processMessages rnd now k ((senderId, a) # ms) s =
     (let r = dispatch (rnd k) now s senderId a;
          (s', out) = processMessages rnd now (Suc k) ms (rstate r)
      in (s', rsent r @ out))"

text \<open>
  \<open>matchLoop\<close>: the messages, then the turn timer. \<open>state.currentTurn &&
  state.turnStartTime\<close> is false on \<open>null\<close>, on the empty string and on \<open>0\<close>. The
  elapsed time is kept in milliseconds; \<open>Math.floor(t) !== Math.floor(t - 1)\<close> holds
  of every elapsed time, so the timer update is always sent. \<open>handleAutoPlay\<close> is
  called outside the \<open>try\<close>, so its exception leaves \<open>matchLoop\<close>.
\<close>

definition matchLoop ::
  "(nat \<Rightarrow> nat \<Rightarrow> nat) \<Rightarrow> int \<Rightarrow> state \<Rightarrow> (string \<times> action) list \<Rightarrow> outcome" where
  "matchLoop rnd now s messages =
     (let (s1, out) = processMessages rnd now 0 messages s
      in case (currentTurn s1, turnStartTime s1) of
           (Some cur, Some start) \<Rightarrow>
             if gamePhase s1 = Playing \<and> cur \<noteq> [] \<and> start \<noteq> 0 then
               (let elapsed = now - start;
                    timer = BroadcastMessage
                              (TimerUpdate (currentTurn s1)
                                 (max 0 (- ((elapsed - turnTimeLimit s1 * 1000) div 1000))))
                in if elapsed \<ge> turnTimeLimit s1 * 1000 then
                     (let r = handleAutoPlay (rnd (length messages)) now s1
                      in r\<lparr>rsent := out @ [timer] @ rsent r\<rparr>)
                   else \<lparr>rstate = s1, rsent = out @ [timer], rthrown = None\<rparr>)
             else \<lparr>rstate = s1, rsent = out, rthrown = None\<rparr>
         | _ \<Rightarrow> \<lparr>rstate = s1, rsent = out, rthrown = None\<rparr>)"

subsection \<open>The cards of a match\<close>

text \<open>
  The multiset union of the deck, the discard pile and every hand, an undefined entry
  counted as the element \<open>None\<close>.
\<close>

definition handsOf :: "(string \<times> player) list \<Rightarrow> slot multiset" where
  "handsOf ps = sum_list (map (\<lambda>(pid, p). mset (hand p)) ps)"

definition allCards :: "state \<Rightarrow> slot multiset" where
  "allCards s = mset (deck s) + mset (discardPile s) + handsOf (players s)"

definition isWildSlot :: "slot \<Rightarrow> bool" where
  "isWildSlot x = (case x of None \<Rightarrow> False | Some c \<Rightarrow> type c = Wild \<or> type c = WildDrawFour)"

text \<open>
  The wild cards on top of the deck once \<open>startGame\<close> has shuffled and dealt: the cards
  the initial flip pops before it reaches a card that is not wild.
\<close>

definition flippedWilds :: "(nat \<Rightarrow> nat) \<Rightarrow> state \<Rightarrow> slot list" where
  "flippedWilds rnd s =
     takeWhile isWildSlot (rev (snd (dealAll (players s) (shuffleDeck rnd createDeck))))"

subsection \<open>Hand values in the words of the specification\<close>

text \<open>
  Section 4.7: a number card counts its value, skip, reverse and draw-two count 20, wild
  and wild-draw-four count 50; a hand is valued as the sum over its cards.
\<close>

definition cardValue_spec :: "card \<Rightarrow> int" where
  "cardValue_spec c =
     (case type c of
        Number \<Rightarrow> (case value' c of None \<Rightarrow> 0 | Some v \<Rightarrow> v)
      | Skip \<Rightarrow> 20 | Reverse \<Rightarrow> 20 | DrawTwo \<Rightarrow> 20
      | Wild \<Rightarrow> 50 | WildDrawFour \<Rightarrow> 50)"

definition handValue_spec :: "slot list \<Rightarrow> int" where
  "handValue_spec h = (\<Sum>x\<leftarrow>h. case x of None \<Rightarrow> 0 | Some c \<Rightarrow> cardValue_spec c)"

text \<open>The sum of the hand values of every player but \<open>w\<close>.\<close>

definition othersTotal_spec :: "(string \<times> player) list \<Rightarrow> string \<Rightarrow> int" where
  "othersTotal_spec ps w = (\<Sum>(k, p)\<leftarrow>ps. if k = w then 0 else handValue_spec (hand p))"

subsection \<open>Example states\<close>

text \<open>
  A player as \<open>matchJoin\<close> creates it, holding the hand \<open>h\<close>, and a started match
  in the playing phase: the players with their hands in join order, the player to act,
  the deck and the discard pile, whose last card is the top card.
\<close>

definition demoPlayer :: "string \<Rightarrow> slot list \<Rightarrow> player" where
  "demoPlayer uid h =
     \<lparr>userId = uid, username = uid, hand = h, ready = False, calledUno = False, score = 0\<rparr>"

definition demoState :: "(string \<times> slot list) list \<Rightarrow> string \<Rightarrow> slot list \<Rightarrow> slot list \<Rightarrow> state" where
  "demoState hs cur d pile =
     \<lparr>players = map (\<lambda>(uid, h). (uid, demoPlayer uid h)) hs, gameStarted = True,
      currentTurn = Some cur, deck = d, discardPile = pile,
      topCard = (if pile = [] then None else last pile), direction = 1, drawCount = 0,
      lastAction = None, gamePhase = Playing, turnStartTime = Some 1000, turnTimeLimit = 15,
      finalScores = None\<rparr>"

abbreviation red5 :: slot where "red5 \<equiv> Some (mkCard Red Number (Some 5))"
abbreviation red7 :: slot where "red7 \<equiv> Some (mkCard Red Number (Some 7))"
abbreviation green3 :: slot where "green3 \<equiv> Some (mkCard Green Number (Some 3))"
abbreviation green4 :: slot where "green4 \<equiv> Some (mkCard Green Number (Some 4))"
abbreviation blue7 :: slot where "blue7 \<equiv> Some (mkCard Blue Number (Some 7))"
abbreviation yellow1 :: slot where "yellow1 \<equiv> Some (mkCard Yellow Number (Some 1))"
abbreviation yellow2 :: slot where "yellow2 \<equiv> Some (mkCard Yellow Number (Some 2))"
abbreviation yellow9 :: slot where "yellow9 \<equiv> Some (mkCard Yellow Number (Some 9))"
abbreviation redDrawTwo :: slot where "redDrawTwo \<equiv> Some (mkCard Red DrawTwo None)"
abbreviation blueSkip :: slot where "blueSkip \<equiv> Some (mkCard Blue Skip None)"
abbreviation wildCard :: slot where "wildCard \<equiv> Some (mkCard WildColor Wild None)"

text \<open>Player a to act on a red 7, holding an unplayable green 3, a red draw-two and a red 5.\<close>

definition tableMid :: state where
  "tableMid = demoState [(''a'', [green3, redDrawTwo, red5]), (''b'', [blueSkip, yellow9])]
                ''a'' [yellow1, yellow2, green4] [blue7, red7]"

text \<open>Player a to act on a red 7 with the red 5 as the last card in hand.\<close>

definition tableLastCard :: state where
  "tableLastCard = demoState [(''a'', [red5]), (''b'', [blueSkip, yellow9, wildCard])]
                     ''a'' [yellow1] [blue7, red7]"

text \<open>The deck is empty and the discard pile holds the top card only.\<close>

definition tableExhausted :: state where
  "tableExhausted = demoState [(''a'', [green3]), (''b'', [blueSkip])] ''a'' [] [red7]"

text \<open>One card is left in the deck when player a holds a playable draw-two.\<close>

definition tableShortDeck :: state where
  "tableShortDeck = demoState [(''a'', [redDrawTwo, red5]), (''b'', [blueSkip])] ''a'' [yellow1] [red7]"

text \<open>The deck is empty and the discard pile holds three cards.\<close>

definition tableEmptyDeck :: state where
  "tableEmptyDeck = demoState [(''a'', [green3]), (''b'', [blueSkip])] ''a'' [] [blue7, green4, red7]"

text \<open>The deck and the discard pile are exhausted, and player a holds a playable red 5.\<close>

definition tableExhaustedPlayable :: state where
  "tableExhaustedPlayable =
     demoState [(''a'', [red5, green3]), (''b'', [blueSkip])] ''a'' [] [red7]"

text \<open>Two players have joined a fresh match; \<open>startGame\<close> has not run yet.\<close>

definition tableJoined :: state where
  "tableJoined = fst (joinLoop [(''a'', ''Ann''), (''b'', ''Bob'')] matchInit)"

section \<open>Theorems\<close>

text \<open>
  C2 (the code departs from the claim). A red skip on a blue reverse has a different
  color, no numeric value and a different kind, so the rule of the specification
  rejects it; \<open>isValidPlay\<close> accepts it, because the \<open>value\<close> fields of two action
  cards are both \<open>null\<close> and compare equal.
\<close>

theorem isValidPlay_accepts_mismatched_action_cards:
  "isValidPlay (Some \<lparr>color = Red, type = Skip, value' = None\<rparr>)
               (Some \<lparr>color = Blue, type = Reverse, value' = None\<rparr>) = Inr True
   \<and> \<not> isLegal_spec \<lparr>color = Red, type = Skip, value' = None\<rparr>
                      \<lparr>color = Blue, type = Reverse, value' = None\<rparr>"
  by (simp add: isValidPlay_def isLegal_spec_def)

subsection \<open>Shuffling, popping and the hands of the players\<close>

lemma mset_shuffleLoop: "k < length xs \<Longrightarrow> mset (shuffleLoop rnd k xs) = mset xs"
proof (induction k arbitrary: xs)
  case 0
  then show ?case by simp
next
  case (Suc k)
  let ?j = "rnd (Suc k) mod (Suc k + 1)"
  have "?j < Suc k + 1" by simp
  then have j: "?j < length xs" using Suc.prems by linarith
  have "mset ((xs[Suc k := xs ! ?j])[?j := xs ! Suc k]) = mset xs"
    using Suc.prems j by (simp add: mset_swap)
  moreover have "k < length ((xs[Suc k := xs ! ?j])[?j := xs ! Suc k])"
    using Suc.prems by simp
  ultimately show ?case using Suc.IH by (simp add: Let_def)
qed

lemma mset_shuffleDeck: "mset (shuffleDeck rnd xs) = mset xs"
proof (cases xs)
  case Nil
  then show ?thesis by (simp add: shuffleDeck_def)
next
  case (Cons a list)
  then show ?thesis by (simp add: shuffleDeck_def mset_shuffleLoop)
qed

lemma length_shuffleDeck: "length (shuffleDeck rnd xs) = length xs"
proof -
  have "size (mset (shuffleDeck rnd xs)) = size (mset xs)" by (simp add: mset_shuffleDeck)
  then show ?thesis by simp
qed

lemma set_shuffleDeck: "set (shuffleDeck rnd xs) = set xs"
proof -
  have "set_mset (mset (shuffleDeck rnd xs)) = set_mset (mset xs)" by (simp add: mset_shuffleDeck)
  then show ?thesis by simp
qed

lemma pop_nonempty: "xs \<noteq> [] \<Longrightarrow> pop xs = (last xs, butlast xs)"
  by (simp add: pop_def)

lemma pop_mset: "xs \<noteq> [] \<Longrightarrow> pop xs = (c, d) \<Longrightarrow> add_mset c (mset d) = mset xs"
proof -
  assume a: "xs \<noteq> []" and b: "pop xs = (c, d)"
  from a have "xs = butlast xs @ [last xs]" by simp
  moreover from a b have "c = last xs" "d = butlast xs" by (simp_all add: pop_def)
  ultimately have "xs = d @ [c]" by simp
  then show ?thesis by simp
qed

lemma handsOf_update:
  "distinct (map fst ps) \<Longrightarrow> map_of ps k = Some p \<Longrightarrow>
   handsOf (AList.update k (p\<lparr>hand := h\<rparr>) ps) + mset (hand p) = handsOf ps + mset h"
proof (induction ps)
  case Nil
  then show ?case by simp
next
  case (Cons a ps)
  obtain k' p' where a: "a = (k', p')" by (cases a)
  show ?case
  proof (cases "k' = k")
    case True
    then show ?thesis using Cons.prems a by (simp add: handsOf_def)
  next
    case False
    then have "handsOf (AList.update k (p\<lparr>hand := h\<rparr>) ps) + mset (hand p) = handsOf ps + mset h"
      using Cons a by simp
    then show ?thesis using False a by (simp add: handsOf_def add.assoc)
  qed
qed

lemma keys_update_present:
  "map_of ps k = Some p \<Longrightarrow> map fst (AList.update k v ps) = map fst ps"
  by (induction ps) (auto split: if_splits)

subsection \<open>Finding the named card in a hand\<close>

lemma card_eq_fields:
  "(hc = (c::card)) = (color hc = color c \<and> type hc = type c \<and> value' hc = value' c)"
  by auto

lemma findCardIndex_absent:
  "None \<notin> set h \<Longrightarrow> Some c \<notin> set h \<Longrightarrow> findCardIndex h (Some c) i = Inr None"
proof (induction h arbitrary: i)
  case Nil
  then show ?case by simp
next
  case (Cons x h)
  then obtain hc where x: "x = Some hc" by (cases x) auto
  with Cons.prems have "hc \<noteq> c" by auto
  then have "\<not> (color hc = color c \<and> type hc = type c \<and> value' hc = value' c)"
    by (simp add: card_eq_fields)
  then show ?case using Cons x by simp
qed

lemma findCardIndex_present:
  "None \<notin> set h \<Longrightarrow> Some c \<in> set h \<Longrightarrow>
   \<exists>j < length h. findCardIndex h (Some c) i = Inr (Some (i + j)) \<and> h ! j = Some c"
proof (induction h arbitrary: i)
  case Nil
  then show ?case by simp
next
  case (Cons x h)
  then obtain hc where x: "x = Some hc" by (cases x) auto
  show ?case
  proof (cases "hc = c")
    case True
    then have "findCardIndex (x # h) (Some c) i = Inr (Some (i + 0))" using x by simp
    then show ?thesis using True x by (intro exI [of _ 0]) simp
  next
    case False
    then have ne: "\<not> (color hc = color c \<and> type hc = type c \<and> value' hc = value' c)"
      by (simp add: card_eq_fields)
    from False Cons.prems x have "Some c \<in> set h" "None \<notin> set h" by auto
    from Cons.IH [OF this(2) this(1), of "Suc i"]
    obtain j where j: "j < length h" "findCardIndex h (Some c) (Suc i) = Inr (Some (Suc i + j))"
      "h ! j = Some c" by blast
    have "findCardIndex (x # h) (Some c) i = Inr (Some (i + Suc j))" using ne x j by simp
    then show ?thesis using j by (intro exI [of _ "Suc j"]) simp
  qed
qed

lemma findCardIndex_bound:
  "findCardIndex h dcard i = Inr (Some k) \<Longrightarrow> i \<le> k \<and> k - i < length h \<and> h ! (k - i) \<noteq> None"
proof (induction h arbitrary: i)
  case Nil
  then show ?case by simp
next
  case (Cons x h)
  show ?case
  proof (cases "k = i")
    case True
    then show ?thesis using Cons.prems by (auto split: option.splits if_splits)
  next
    case False
    with Cons.prems have "findCardIndex h dcard (Suc i) = Inr (Some k)"
      by (auto split: option.splits if_splits)
    from Cons.IH [OF this] have "Suc i \<le> k" "k - Suc i < length h" "h ! (k - Suc i) \<noteq> None"
      by auto
    moreover from \<open>Suc i \<le> k\<close> have "k - i = Suc (k - Suc i)" by simp
    ultimately show ?thesis by simp
  qed
qed

subsection \<open>Errors of a play\<close>

text \<open>
  C7. The player to act names a card. When the card is not in the hand, or is in the hand
  and \<open>isValidPlay\<close> rejects it against the top card, \<open>handlePlayCard\<close> returns the
  state it was given and makes exactly one dispatcher call, the error message addressed
  to that player alone.
\<close>

theorem play_card_error_is_scoped_and_atomic:
  assumes "currentTurn s = Some playerId"
    and "map_of (players s) playerId = Some p"
    and "None \<notin> set (hand p)"
    and "Some c \<notin> set (hand p) \<or> isValidPlay (Some c) (topCard s) = Inr False"
  shows "handlePlayCard now s playerId (Some c) =
           \<lparr>rstate = s,
            rsent = [BroadcastMessageDeferred
                       (PlayCardError (if Some c \<in> set (hand p)
                                       then InvalidPlayError (topCard s) (Some c)
                                       else CardNotOwnedError)) [playerId]],
            rthrown = None\<rparr>"
proof (cases "Some c \<in> set (hand p)")
  case False
  then have "findCardIndex (hand p) (Some c) 0 = Inr None"
    using assms(3) by (simp add: findCardIndex_absent)
  then show ?thesis using assms(1,2) False by (simp add: handlePlayCard_def)
next
  case True
  with assms(4) have inv: "isValidPlay (Some c) (topCard s) = Inr False" by simp
  from findCardIndex_present [OF assms(3) True, of 0]
  obtain j where "findCardIndex (hand p) (Some c) 0 = Inr (Some j)" by auto
  then show ?thesis using assms(1,2) True inv by (simp add: handlePlayCard_def)
qed

theorem play_card_error_is_scoped_and_atomic_witness:
  "handlePlayCard 5 tableMid ''a'' yellow1 =
     \<lparr>rstate = tableMid,
      rsent = [BroadcastMessageDeferred (PlayCardError CardNotOwnedError) [''a'']],
      rthrown = None\<rparr>
   \<and> handlePlayCard 5 tableMid ''a'' green3 =
     \<lparr>rstate = tableMid,
      rsent = [BroadcastMessageDeferred (PlayCardError (InvalidPlayError red7 green3)) [''a'']],
      rthrown = None\<rparr>"
proof -
  let ?p = "demoPlayer ''a'' [green3, redDrawTwo, red5]"
  have turn: "currentTurn tableMid = Some ''a''" by code_simp
  have pl: "map_of (players tableMid) ''a'' = Some ?p" by code_simp
  have defd: "None \<notin> set (hand ?p)" by code_simp
  have top: "topCard tableMid = red7" by code_simp
  have a: "yellow1 \<notin> set (hand ?p) \<or> isValidPlay yellow1 (topCard tableMid) = Inr False"
    by code_simp
  have b: "green3 \<notin> set (hand ?p) \<or> isValidPlay green3 (topCard tableMid) = Inr False"
    by code_simp
  have a': "yellow1 \<notin> set (hand ?p)" by code_simp
  have b': "green3 \<in> set (hand ?p)" by code_simp
  show ?thesis
    using play_card_error_is_scoped_and_atomic [OF turn pl defd a, of 5]
      play_card_error_is_scoped_and_atomic [OF turn pl defd b, of 5] a' b' top
    by simp
qed

subsection \<open>Turn validation\<close>

text \<open>
  C6 (as amended). \<open>handlePlayCard\<close>, \<open>handleDrawCard\<close> and \<open>handlePassTurn\<close>
  compare \<open>currentTurn\<close> with the sender first, and out of turn they return the state
  unchanged and send nothing. \<open>handleCallUno\<close> makes no such comparison: for any
  sender that is a player it sets the sender's \<open>calledUno\<close> flag and broadcasts
  \<open>player_called_uno\<close>, whoever is to act.
\<close>

theorem turn_validation_of_handlers:
  "(currentTurn s \<noteq> Some playerId \<longrightarrow>
      handlePlayCard now s playerId dcard = \<lparr>rstate = s, rsent = [], rthrown = None\<rparr>
      \<and> handleDrawCard rnd now s playerId = \<lparr>rstate = s, rsent = [], rthrown = None\<rparr>
      \<and> handlePassTurn now s playerId = \<lparr>rstate = s, rsent = [], rthrown = None\<rparr>)
   \<and> (map_of (players s) playerId = Some p \<longrightarrow>
      handleCallUno s playerId =
        \<lparr>rstate = s\<lparr>players := AList.update playerId (p\<lparr>calledUno := True\<rparr>) (players s)\<rparr>,
         rsent = [BroadcastMessage (PlayerCalledUno playerId (username p))],
         rthrown = None\<rparr>)"
  by (simp add: handlePlayCard_def handleDrawCard_def handlePassTurn_def handleCallUno_def)

theorem turn_validation_of_handlers_witness:
  "handlePlayCard 5 tableMid ''b'' blueSkip = \<lparr>rstate = tableMid, rsent = [], rthrown = None\<rparr>
   \<and> handleDrawCard (\<lambda>i. 0) 5 tableMid ''b'' = \<lparr>rstate = tableMid, rsent = [], rthrown = None\<rparr>
   \<and> handlePassTurn 5 tableMid ''b'' = \<lparr>rstate = tableMid, rsent = [], rthrown = None\<rparr>
   \<and> handleCallUno tableMid ''b'' =
        \<lparr>rstate = tableMid\<lparr>players :=
                    AList.update ''b'' ((demoPlayer ''b'' [blueSkip, yellow9])\<lparr>calledUno := True\<rparr>)
                      (players tableMid)\<rparr>,
         rsent = [BroadcastMessage (PlayerCalledUno ''b'' ''b'')],
         rthrown = None\<rparr>"
proof -
  have turn: "currentTurn tableMid \<noteq> Some ''b''" by code_simp
  have pl: "map_of (players tableMid) ''b'' = Some (demoPlayer ''b'' [blueSkip, yellow9])"
    by code_simp
  have nm: "username (demoPlayer ''b'' [blueSkip, yellow9]) = ''b''" by code_simp
  show ?thesis
    using turn_validation_of_handlers
      [of tableMid "''b''" 5 blueSkip "\<lambda>i. 0" "demoPlayer ''b'' [blueSkip, yellow9]"] turn pl nm
    by simp
qed

text \<open>
  The claim as stated fails for \<open>call_uno\<close>: it is player a's turn, player b calls
  uno, and the state changes.
\<close>

theorem call_uno_out_of_turn_counterexample:
  "currentTurn tableMid \<noteq> Some ''b'' \<and> rstate (handleCallUno tableMid ''b'') \<noteq> tableMid"
proof -
  have "currentTurn tableMid \<noteq> Some ''b''" by code_simp
  moreover have "map (\<lambda>(k, p). calledUno p) (players (rstate (handleCallUno tableMid ''b'')))
                 \<noteq> map (\<lambda>(k, p). calledUno p) (players tableMid)"
    by code_simp
  ultimately show ?thesis by auto
qed

subsection \<open>Every player leaves\<close>

lemma leaveLoop_result:
  "leaveLoop us s =
     (s\<lparr>players := filter (\<lambda>(k, p). k \<notin> set us) (players s)\<rparr>,
      map (\<lambda>u. BroadcastMessage (PlayerLeft u)) us)"
proof (induction us arbitrary: s)
  case Nil
  then show ?case by simp
next
  case (Cons u us)
  have "filter (\<lambda>(k, p). k \<notin> set us) (AList.delete u (players s))
        = filter (\<lambda>(k, p). k \<notin> set (u # us)) (players s)"
    by (induction "players s") (auto simp: AList.delete_eq intro: filter_cong)
  then show ?case using Cons by simp
qed

text \<open>
  C10. When every player of a started match is among the leaving presences,
  \<open>matchLeave\<close> ends in the phase \<open>finished\<close> with no player, the final scores are
  the empty object, and after the \<open>player_left\<close> messages it broadcasts
  \<open>game_ended\<close> with reason \<open>player_left\<close>, empty final scores and winner \<open>null\<close>.
\<close>

theorem all_players_leave_no_winner:
  assumes "gameStarted s" and "set (map fst (players s)) \<subseteq> set presences"
  shows "matchLeave s presences =
           \<lparr>rstate = s\<lparr>players := [], gamePhase := Finished, finalScores := Some []\<rparr>,
            rsent = map (\<lambda>u. BroadcastMessage (PlayerLeft u)) presences
                    @ [BroadcastMessage (GameEnded PlayerLeftEnd None None [] None)],
            rthrown = None\<rparr>"
proof -
  have "filter (\<lambda>(k, p). k \<notin> set presences) (players s) = []"
    using assms(2) by (auto simp: filter_empty_conv)
  then show ?thesis using assms(1) by (simp add: matchLeave_def leaveLoop_result)
qed

theorem all_players_leave_no_winner_witness:
  "matchLeave tableMid [''a'', ''b''] =
     \<lparr>rstate = tableMid\<lparr>players := [], gamePhase := Finished, finalScores := Some []\<rparr>,
      rsent = [BroadcastMessage (PlayerLeft ''a''), BroadcastMessage (PlayerLeft ''b''),
               BroadcastMessage (GameEnded PlayerLeftEnd None None [] None)],
      rthrown = None\<rparr>"
proof -
  have st: "gameStarted tableMid" by code_simp
  have ks: "set (map fst (players tableMid)) \<subseteq> set [''a'', ''b'']" by code_simp
  show ?thesis using all_players_leave_no_winner [OF st ks] by simp
qed

subsection \<open>Reshuffle\<close>

text \<open>
  C8 (as amended). On an empty deck and a non-empty discard pile whose last card is the
  top card, \<open>reshuffleDeck\<close> leaves the multiset union of deck and discard pile
  unchanged, and the discard pile afterwards holds exactly the top card.
\<close>

theorem reshuffle_preserves_cards:
  assumes "deck s = []" and "discardPile s \<noteq> []" and "topCard s = last (discardPile s)"
  shows "mset (deck (reshuffleDeck rnd s)) + mset (discardPile (reshuffleDeck rnd s))
           = mset (deck s) + mset (discardPile s)
         \<and> discardPile (reshuffleDeck rnd s) = [topCard s]"
proof -
  have p: "pop (discardPile s) = (last (discardPile s), butlast (discardPile s))"
    using assms(2) by (simp add: pop_def)
  have "add_mset (last (discardPile s)) (mset (butlast (discardPile s))) = mset (discardPile s)"
    using pop_mset [OF assms(2) p] .
  then show ?thesis
    using assms(1,3) p by (simp add: reshuffleDeck_def mset_shuffleDeck)
qed

theorem reshuffle_preserves_cards_witness:
  "mset (deck (reshuffleDeck (\<lambda>i. 0) tableEmptyDeck))
     + mset (discardPile (reshuffleDeck (\<lambda>i. 0) tableEmptyDeck))
   = mset (deck tableEmptyDeck) + mset (discardPile tableEmptyDeck)
   \<and> discardPile (reshuffleDeck (\<lambda>i. 0) tableEmptyDeck) = [red7]"
proof -
  have d: "deck tableEmptyDeck = []" by code_simp
  have n: "discardPile tableEmptyDeck \<noteq> []" by code_simp
  have t: "topCard tableEmptyDeck = last (discardPile tableEmptyDeck)" by code_simp
  have t': "topCard tableEmptyDeck = red7" by code_simp
  from reshuffle_preserves_cards [OF d n t, of "\<lambda>i. 0"] show ?thesis unfolding t' .
qed

text \<open>
  The claim as stated asks for a non-empty discard pile only. With a card left in the
  deck the reshuffle overwrites the deck: the three cards of the deck are gone.
\<close>

theorem reshuffle_nonempty_deck_counterexample:
  "discardPile tableMid \<noteq> []
   \<and> size (mset (deck (reshuffleDeck (\<lambda>i. 0) tableMid))
           + mset (discardPile (reshuffleDeck (\<lambda>i. 0) tableMid))) = 2
   \<and> size (mset (deck tableMid) + mset (discardPile tableMid)) = 5"
proof -
  have "discardPile tableMid \<noteq> []" by code_simp
  moreover have "length (deck (reshuffleDeck (\<lambda>i. 0) tableMid)) = 1" by code_simp
  moreover have "length (discardPile (reshuffleDeck (\<lambda>i. 0) tableMid)) = 1" by code_simp
  moreover have "length (deck tableMid) = 3" by code_simp
  moreover have "length (discardPile tableMid) = 2" by code_simp
  ultimately show ?thesis by simp
qed

subsection \<open>Scores\<close>

lemma cardPoints_spec: "cardPoints c = cardValue_spec c"
  by (cases "type c") (simp_all add: cardPoints_def cardValue_spec_def)

lemma handValue_defined:
  "None \<notin> set h \<Longrightarrow> handValue h acc = Inr (acc + handValue_spec h)"
proof (induction h arbitrary: acc)
  case Nil
  then show ?case by (simp add: handValue_spec_def)
next
  case (Cons x h)
  then obtain c where x: "x = Some c" by (cases x) auto
  from Cons have "handValue h (acc + cardPoints c) = Inr (acc + cardPoints c + handValue_spec h)"
    by simp
  then show ?case using x by (simp add: handValue_spec_def cardPoints_spec)
qed

lemma scoreLoop_result:
  assumes "\<forall>(k, p) \<in> set ps. None \<notin> set (hand p)" and "distinct (map fst ps)"
  shows "\<exists>sc. scoreLoop ps w scores tot = Inr (sc, tot + othersTotal_spec ps w)
              \<and> (\<forall>k. map_of sc k =
                    (case map_of ps k of
                       None \<Rightarrow> map_of scores k
                     | Some p \<Rightarrow> Some (if k = w then 100 else - handValue_spec (hand p))))"
  using assms
proof (induction ps arbitrary: scores tot)
  case Nil
  then show ?case by (simp add: othersTotal_spec_def)
next
  case (Cons a ps)
  obtain k0 p0 where a: "a = (k0, p0)" by (cases a)
  from Cons.prems a have hv: "handValue (hand p0) 0 = Inr (handValue_spec (hand p0))"
    by (simp add: handValue_defined)
  from Cons.prems a have rest: "\<forall>(k, p) \<in> set ps. None \<notin> set (hand p)" "distinct (map fst ps)"
    and fresh: "map_of ps k0 = None"
    by (auto simp: map_of_eq_None_iff)
  let ?v = "if k0 = w then 100 else - handValue_spec (hand p0)"
  let ?t = "if k0 = w then tot else tot + handValue_spec (hand p0)"
  from Cons.IH [OF rest, of "AList.update k0 ?v scores" ?t]
  obtain sc where sc: "scoreLoop ps w (AList.update k0 ?v scores) ?t = Inr (sc, ?t + othersTotal_spec ps w)"
    and look: "\<forall>k. map_of sc k =
                 (case map_of ps k of
                    None \<Rightarrow> map_of (AList.update k0 ?v scores) k
                  | Some p \<Rightarrow> Some (if k = w then 100 else - handValue_spec (hand p)))"
    by blast
  have run: "scoreLoop (a # ps) w scores tot = Inr (sc, tot + othersTotal_spec (a # ps) w)"
    using sc hv a by (cases "k0 = w") (simp_all add: othersTotal_spec_def)
  have "map_of sc k =
          (case map_of (a # ps) k of
             None \<Rightarrow> map_of scores k
           | Some p \<Rightarrow> Some (if k = w then 100 else - handValue_spec (hand p)))" for k
  proof -
    from look have lk: "map_of sc k =
                 (case map_of ps k of
                    None \<Rightarrow> map_of (AList.update k0 ?v scores) k
                  | Some p \<Rightarrow> Some (if k = w then 100 else - handValue_spec (hand p)))"
      by blast
    show ?thesis
    proof (cases "k = k0")
      case True
      then show ?thesis using lk fresh a by (simp add: update_conv)
    next
      case False
      then show ?thesis using lk a by (cases "map_of ps k") (simp_all add: update_conv)
    qed
  qed
  with run show ?case by blast
qed

text \<open>
  C5. \<open>endGame\<close> on a state whose hands hold cards only, for a winner that is one of the
  players: the final scores hold one record per player, in key order; a player other than
  the winner scores the negation of the value of the hand, and the winner scores 100 plus
  the sum of the hand values of all the others.
\<close>

theorem endGame_scores:
  assumes "distinct (map fst (players s))"
    and "map_of (players s) winnerId = Some w"
    and "\<forall>(k, p) \<in> set (players s). None \<notin> set (hand p)"
  shows "finalScores (rstate (endGame s winnerId)) =
           Some (map (\<lambda>(k, p).
                   (k, \<lparr>entryUserId = k, entryUsername = username p,
                        entryScore = (if k = winnerId
                                      then 100 + othersTotal_spec (players s) winnerId
                                      else - handValue_spec (hand p)),
                        entryResult = (if k = winnerId then Winner else Loser),
                        entryReason = GameCompleted\<rparr>)) (players s))"
proof -
  let ?T = "othersTotal_spec (players s) winnerId"
  from scoreLoop_result [OF assms(3) assms(1), of winnerId "[]" 0]
  obtain sc where sc0: "scoreLoop (players s) winnerId [] 0 = Inr (sc, 0 + ?T)"
    and look0: "\<forall>k. map_of sc k =
                 (case map_of (players s) k of
                    None \<Rightarrow> map_of [] k
                  | Some p \<Rightarrow> Some (if k = winnerId then 100 else - handValue_spec (hand p)))"
    by blast
  from sc0 have sc: "scoreLoop (players s) winnerId [] 0 = Inr (sc, ?T)" by simp
  from look0 have look: "\<forall>k. map_of sc k =
                 (case map_of (players s) k of
                    None \<Rightarrow> None
                  | Some p \<Rightarrow> Some (if k = winnerId then 100 else - handValue_spec (hand p)))"
    by (simp cong: option.case_cong)
  have win: "map_of sc winnerId = Some 100" using look assms(2) by simp
  let ?sc' = "AList.update winnerId (100 + ?T) sc"
  have entry: "(case map_of ?sc' k of None \<Rightarrow> 0 | Some v \<Rightarrow> v)
               = (if k = winnerId then 100 + ?T else - handValue_spec (hand p))"
    if "(k, p) \<in> set (players s)" for k p
  proof -
    from that assms(1) have "map_of (players s) k = Some p" by simp
    then show ?thesis using look by (simp add: update_conv)
  qed
  have fs_eq: "map (\<lambda>(playerId, p).
              (playerId,
               \<lparr>entryUserId = playerId, entryUsername = username p,
                entryScore = (case map_of ?sc' playerId of None \<Rightarrow> 0 | Some v \<Rightarrow> v),
                entryResult = (if playerId = winnerId then Winner else Loser),
                entryReason = GameCompleted\<rparr>)) (players s)
        = map (\<lambda>(k, p).
                   (k, \<lparr>entryUserId = k, entryUsername = username p,
                        entryScore = (if k = winnerId then 100 + ?T else - handValue_spec (hand p)),
                        entryResult = (if k = winnerId then Winner else Loser),
                        entryReason = GameCompleted\<rparr>)) (players s)"
    by (rule map_cong) (auto simp: entry)
  have "finalScores (rstate (endGame s winnerId)) =
          Some (map (\<lambda>(playerId, p).
              (playerId,
               \<lparr>entryUserId = playerId, entryUsername = username p,
                entryScore = (case map_of ?sc' playerId of None \<Rightarrow> 0 | Some v \<Rightarrow> v),
                entryResult = (if playerId = winnerId then Winner else Loser),
                entryReason = GameCompleted\<rparr>)) (players s))"
    using sc win assms(2) by (simp add: endGame_def Let_def)
  then show ?thesis unfolding fs_eq .
qed

theorem endGame_scores_witness:
  "finalScores (rstate (endGame tableLastCard ''a'')) =
     Some [(''a'', \<lparr>entryUserId = ''a'', entryUsername = ''a'', entryScore = 179,
                    entryResult = Winner, entryReason = GameCompleted\<rparr>),
           (''b'', \<lparr>entryUserId = ''b'', entryUsername = ''b'', entryScore = - 79,
                    entryResult = Loser, entryReason = GameCompleted\<rparr>)]"
proof -
  have d: "distinct (map fst (players tableLastCard))" by code_simp
  have w: "map_of (players tableLastCard) ''a'' = Some (demoPlayer ''a'' [red5])" by code_simp
  have h: "\<forall>(k, p) \<in> set (players tableLastCard). None \<notin> set (hand p)" by code_simp
  have e: "map (\<lambda>(k, p).
                   (k, \<lparr>entryUserId = k, entryUsername = username p,
                        entryScore = (if k = ''a''
                                      then 100 + othersTotal_spec (players tableLastCard) ''a''
                                      else - handValue_spec (hand p)),
                        entryResult = (if k = ''a'' then Winner else Loser),
                        entryReason = GameCompleted\<rparr>)) (players tableLastCard)
      = [(''a'', \<lparr>entryUserId = ''a'', entryUsername = ''a'', entryScore = 179,
                    entryResult = Winner, entryReason = GameCompleted\<rparr>),
           (''b'', \<lparr>entryUserId = ''b'', entryUsername = ''b'', entryScore = - 79,
                    entryResult = Loser, entryReason = GameCompleted\<rparr>)]"
    by code_simp
  from endGame_scores [OF d w h] show ?thesis unfolding e .
qed

subsection \<open>Advancing the turn and forced draws\<close>

lemma advanceTurn_fields:
  "players (advanceTurn now s) = players s" "deck (advanceTurn now s) = deck s"
  "discardPile (advanceTurn now s) = discardPile s" "topCard (advanceTurn now s) = topCard s"
  "gamePhase (advanceTurn now s) = gamePhase s" "finalScores (advanceTurn now s) = finalScores s"
  by (simp_all add: advanceTurn_def Let_def)

lemma allCards_advanceTurn: "allCards (advanceTurn now s) = allCards s"
  by (simp add: allCards_def advanceTurn_fields)

lemma handLength_advanceTurn: "handLength (advanceTurn now s) q = handLength s q"
  by (simp add: handLength_def advanceTurn_fields)

lemma advanceTurn_two_players:
  assumes "map fst (players s) = [a, b]" and "a \<noteq> b"
  shows "currentTurn s = Some a \<Longrightarrow> currentTurn (advanceTurn now s) = Some b"
    and "currentTurn s = Some b \<Longrightarrow> currentTurn (advanceTurn now s) = Some a"
  using assms by (simp_all add: advanceTurn_def Let_def jsRem_def arrayAt_def)

lemma handsOf_append:
  assumes "distinct (map fst ps)" and "map_of ps k = Some p"
  shows "handsOf (AList.update k (p\<lparr>hand := hand p @ xs\<rparr>) ps) = handsOf ps + mset xs"
proof -
  have "handsOf (AList.update k (p\<lparr>hand := hand p @ xs\<rparr>) ps) + mset (hand p)
        = handsOf ps + mset xs + mset (hand p)"
    using handsOf_update [OF assms, of "hand p @ xs"] by (simp add: ac_simps)
  then show ?thesis by simp
qed

lemma handsOf_remove:
  assumes "distinct (map fst ps)" and "map_of ps k = Some p" and "i < length (hand p)"
  shows "handsOf (AList.update k (p\<lparr>hand := take i (hand p) @ drop (Suc i) (hand p)\<rparr>) ps)
           + {#hand p ! i#} = handsOf ps"
proof -
  let ?h = "take i (hand p) @ drop (Suc i) (hand p)"
  have "hand p = take i (hand p) @ (hand p ! i) # drop (Suc i) (hand p)"
    using assms(3) by (simp add: id_take_nth_drop)
  then have "mset (hand p) = mset ?h + {#hand p ! i#}"
    by (metis mset.simps(2) mset_append union_mset_add_mset_right add_mset_add_single)
  then have "handsOf (AList.update k (p\<lparr>hand := ?h\<rparr>) ps) + {#hand p ! i#} + mset ?h
        = handsOf ps + mset ?h"
    using handsOf_update [OF assms(1,2), of ?h] by (simp add: ac_simps)
  then show ?thesis by simp
qed

lemma forcedDraw_props:
  assumes "map_of (players s) pid = Some p"
  shows "\<exists>s'. forcedDraw k (Some pid) s = (s', None)
             \<and> s' = s\<lparr>deck := deck s', players := players s'\<rparr>
             \<and> map fst (players s') = map fst (players s)
             \<and> handLength s' pid = handLength s pid + min k (length (deck s))
             \<and> (\<forall>q. q \<noteq> pid \<longrightarrow> map_of (players s') q = map_of (players s) q)
             \<and> (distinct (map fst (players s)) \<longrightarrow> allCards s' = allCards s)"
  using assms
proof (induction k arbitrary: s p)
  case 0
  then show ?case by simp
next
  case (Suc k)
  show ?case
  proof (cases "deck s = []")
    case True
    from Suc.IH [OF Suc.prems] obtain s' where
      "forcedDraw k (Some pid) s = (s', None)"
      "s' = s\<lparr>deck := deck s', players := players s'\<rparr>"
      "map fst (players s') = map fst (players s)"
      "handLength s' pid = handLength s pid + min k (length (deck s))"
      "\<forall>q. q \<noteq> pid \<longrightarrow> map_of (players s') q = map_of (players s) q"
      "distinct (map fst (players s)) \<longrightarrow> allCards s' = allCards s"
      by blast
    then show ?thesis using True by auto
  next
    case False
    let ?c = "last (deck s)" and ?d = "butlast (deck s)"
    let ?p1 = "p\<lparr>hand := hand p @ [?c]\<rparr>"
    let ?s1 = "s\<lparr>deck := ?d, players := AList.update pid ?p1 (players s)\<rparr>"
    have pp: "pop (deck s) = (?c, ?d)" using False by (simp add: pop_def)
    have step: "forcedDraw (Suc k) (Some pid) s = forcedDraw k (Some pid) ?s1"
      using False Suc.prems pp by simp
    have p1: "map_of (players ?s1) pid = Some ?p1" by (simp add: update_conv)
    have keys1: "map fst (players ?s1) = map fst (players s)"
      using Suc.prems by (simp add: keys_update_present)
    have hl1: "handLength ?s1 pid = Suc (handLength s pid)"
      using Suc.prems by (simp add: handLength_def update_conv)
    have oth1: "q \<noteq> pid \<Longrightarrow> map_of (players ?s1) q = map_of (players s) q" for q
      by (simp add: update_conv)
    have cards1: "allCards ?s1 = allCards s" if "distinct (map fst (players s))"
    proof -
      have "add_mset ?c (mset ?d) = mset (deck s)" using pop_mset [OF False pp] .
      moreover have "handsOf (AList.update pid ?p1 (players s)) = handsOf (players s) + mset [?c]"
        using handsOf_append [OF that Suc.prems] .
      ultimately show ?thesis by (simp add: allCards_def)
    qed
    from Suc.IH [OF p1] obtain s' where s':
      "forcedDraw k (Some pid) ?s1 = (s', None)"
      "s' = ?s1\<lparr>deck := deck s', players := players s'\<rparr>"
      "map fst (players s') = map fst (players ?s1)"
      "handLength s' pid = handLength ?s1 pid + min k (length (deck ?s1))"
      "\<forall>q. q \<noteq> pid \<longrightarrow> map_of (players s') q = map_of (players ?s1) q"
      "distinct (map fst (players ?s1)) \<longrightarrow> allCards s' = allCards ?s1"
      by blast
    have a: "forcedDraw (Suc k) (Some pid) s = (s', None)" using step s'(1) by simp
    have "?s1\<lparr>deck := deck s', players := players s'\<rparr> = s\<lparr>deck := deck s', players := players s'\<rparr>"
      by simp
    with s'(2) have b: "s' = s\<lparr>deck := deck s', players := players s'\<rparr>"
      by (rule trans)
    have c: "map fst (players s') = map fst (players s)" using s'(3) keys1 by simp
    obtain n where n: "length (deck s) = Suc n" using False by (cases "deck s") auto
    then have m: "min (Suc k) (length (deck s)) = Suc (min k (length (deck s) - 1))" by simp
    have d: "handLength s' pid = handLength s pid + min (Suc k) (length (deck s))"
      using s'(4) hl1 m by simp
    have e: "\<forall>q. q \<noteq> pid \<longrightarrow> map_of (players s') q = map_of (players s) q"
      using s'(5) oth1 by simp
    have f: "distinct (map fst (players s)) \<longrightarrow> allCards s' = allCards s"
      using s'(6) keys1 cards1 by simp
    from a b c d e f show ?thesis by blast
  qed
qed

subsection \<open>A play that does not end the game\<close>

lemma playAt_state:
  assumes "spliceOne i (hand p) = (pc, nh)" and "nh \<noteq> []"
    and "applyCardEffects now
           (s\<lparr>players := AList.update playerId (p\<lparr>hand := nh\<rparr>) (players s),
              topCard := pc, discardPile := discardPile s @ [pc]\<rparr>) pc = (s2, None)"
  shows "rstate (playAt ev now s playerId p i) = advanceTurn now s2"
  using assms by (simp add: playAt_def Let_def split: prod.splits option.splits)

lemma handlePlayCard_playAt:
  assumes "currentTurn s = Some playerId" and "map_of (players s) playerId = Some p"
    and "findCardIndex (hand p) dcard 0 = Inr (Some i)"
    and "isValidPlay dcard (topCard s) = Inr True"
  shows "handlePlayCard now s playerId dcard = playAt CardPlayed now s playerId p i"
  using assms by (simp add: handlePlayCard_def)

text \<open>
  C4 (as amended). Two players, the one to act holds more than one card and plays a
  draw-two that is in the hand and that \<open>isValidPlay\<close> accepts. Afterwards the hand of
  the opponent has grown by two cards, or by as many as the deck still held when that is
  fewer, and it is the turn of the player who played the card again.
\<close>

theorem draw_two_in_two_player_match:
  assumes keys: "map fst (players s) = [a, b]" "a \<noteq> b"
    and who: "(playerId, opp) = (a, b) \<or> (playerId, opp) = (b, a)"
    and turn: "currentTurn s = Some playerId"
    and pl: "map_of (players s) playerId = Some p"
    and defd: "None \<notin> set (hand p)"
    and held: "Some c \<in> set (hand p)"
    and kind: "type c = DrawTwo"
    and legal: "isValidPlay (Some c) (topCard s) = Inr True"
    and many: "length (hand p) > 1"
  shows "handLength (rstate (handlePlayCard now s playerId (Some c))) opp
           = handLength s opp + min 2 (length (deck s))
         \<and> currentTurn (rstate (handlePlayCard now s playerId (Some c))) = Some playerId"
proof -
  from findCardIndex_present [OF defd held, of 0]
  obtain j where j: "j < length (hand p)" "findCardIndex (hand p) (Some c) 0 = Inr (Some j)"
    "hand p ! j = Some c" by auto
  let ?nh = "take j (hand p) @ drop (Suc j) (hand p)"
  let ?s1 = "s\<lparr>players := AList.update playerId (p\<lparr>hand := ?nh\<rparr>) (players s),
                topCard := Some c, discardPile := discardPile s @ [Some c]\<rparr>"
  let ?s1a = "advanceTurn now ?s1"
  have sp: "spliceOne j (hand p) = (Some c, ?nh)" using j by (simp add: spliceOne_def)
  have nh: "?nh \<noteq> []" using many j(1) by (cases "hand p") auto
  have ne: "playerId \<noteq> opp" using who keys(2) by auto
  have keys1: "map fst (players ?s1) = [a, b]" using keys pl by (simp add: keys_update_present)
  have turn1: "currentTurn ?s1 = Some playerId" using turn by simp
  have turn1a: "currentTurn ?s1a = Some opp"
    using who advanceTurn_two_players [OF keys1 keys(2), of now] turn1 by auto
  have "opp \<in> set (map fst (players s))" using who keys by auto
  then obtain po where po: "map_of (players s) opp = Some po"
    by (metis map_of_eq_None_iff not_Some_eq set_map)
  have po1: "map_of (players ?s1a) opp = Some po"
    using po ne by (simp add: advanceTurn_fields update_conv)
  from forcedDraw_props [OF po1, of 2] obtain s2 where s2:
    "forcedDraw 2 (Some opp) ?s1a = (s2, None)"
    "s2 = ?s1a\<lparr>deck := deck s2, players := players s2\<rparr>"
    "map fst (players s2) = map fst (players ?s1a)"
    "handLength s2 opp = handLength ?s1a opp + min 2 (length (deck ?s1a))"
    by blast
  have eff: "applyCardEffects now ?s1 (Some c) = (s2, None)"
    using kind s2(1) turn1a by (simp add: applyCardEffects_def Let_def)
  have st: "rstate (handlePlayCard now s playerId (Some c)) = advanceTurn now s2"
    using handlePlayCard_playAt [OF turn pl j(2) legal, of now] playAt_state [OF sp nh eff]
    by simp
  have keys2: "map fst (players s2) = [a, b]" using s2(3) keys1 by (simp add: advanceTurn_fields)
  have "currentTurn s2 = currentTurn (?s1a\<lparr>deck := deck s2, players := players s2\<rparr>)"
    using s2(2) by simp
  then have turn2: "currentTurn s2 = Some opp" using turn1a by simp
  have ret: "currentTurn (advanceTurn now s2) = Some playerId"
    using who advanceTurn_two_players [OF keys2 keys(2), of now] turn2 by auto
  have "handLength ?s1a opp = handLength s opp"
    using ne by (simp add: handLength_def advanceTurn_fields update_conv)
  then have "handLength (advanceTurn now s2) opp = handLength s opp + min 2 (length (deck s))"
    using s2(4) by (simp add: handLength_advanceTurn advanceTurn_fields)
  with ret st show ?thesis by simp
qed

theorem draw_two_in_two_player_match_witness:
  "handLength (rstate (handlePlayCard 5 tableMid ''a'' redDrawTwo)) ''b'' = 4
   \<and> handLength tableMid ''b'' = 2
   \<and> currentTurn (rstate (handlePlayCard 5 tableMid ''a'' redDrawTwo)) = Some ''a''"
proof -
  let ?p = "demoPlayer ''a'' [green3, redDrawTwo, red5]"
  have keys: "map fst (players tableMid) = [''a'', ''b'']" "''a'' \<noteq> ''b''" by code_simp+
  have who: "(''a'', ''b'') = (''a'', ''b'') \<or> (''a'', ''b'') = (''b'', ''a'')" by simp
  have turn: "currentTurn tableMid = Some ''a''" by code_simp
  have pl: "map_of (players tableMid) ''a'' = Some ?p" by code_simp
  have defd: "None \<notin> set (hand ?p)" by code_simp
  have held: "redDrawTwo \<in> set (hand ?p)" by code_simp
  have kind: "type (mkCard Red DrawTwo None) = DrawTwo" by code_simp
  have legal: "isValidPlay redDrawTwo (topCard tableMid) = Inr True" by code_simp
  have many: "length (hand ?p) > 1" by code_simp
  have b: "handLength tableMid ''b'' = 2" by code_simp
  have d: "length (deck tableMid) = 3" by code_simp
  from draw_two_in_two_player_match [OF keys who turn pl defd held kind legal many, of 5]
  show ?thesis unfolding b d by simp
qed

text \<open>
  The claim as stated fails on a short deck: with one card left the opponent draws one
  card, not two (\<open>applyCardEffects\<close> draws only while the deck is non-empty).
\<close>

theorem draw_two_short_deck_counterexample:
  "handLength (rstate (handlePlayCard 5 tableShortDeck ''a'' redDrawTwo)) ''b''
     = handLength tableShortDeck ''b'' + 1
   \<and> gamePhase tableShortDeck = Playing
   \<and> map fst (players tableShortDeck) = [''a'', ''b'']
   \<and> currentTurn tableShortDeck = Some ''a''
   \<and> isValidPlay redDrawTwo (topCard tableShortDeck) = Inr True
   \<and> gamePhase (rstate (handlePlayCard 5 tableShortDeck ''a'' redDrawTwo)) = Playing"
  by code_simp

subsection \<open>The end of the game\<close>

lemma endGame_outcome:
  assumes "distinct (map fst (players s))"
    and "map_of (players s) winnerId = Some w"
    and "\<forall>(k, p) \<in> set (players s). None \<notin> set (hand p)"
  shows "\<exists>fs. map fst fs = map fst (players s)
            \<and> endGame s winnerId =
                 \<lparr>rstate = s\<lparr>gamePhase := Ended, finalScores := Some fs\<rparr>,
                  rsent = [BroadcastMessage
                             (GameEnded GameCompletedEnd (Some winnerId) (Some (username w)) fs
                                (Some winnerId))],
                  rthrown = None\<rparr>"
proof -
  from scoreLoop_result [OF assms(3) assms(1), of winnerId "[]" 0]
  obtain sc t where sc: "scoreLoop (players s) winnerId [] 0 = Inr (sc, t)"
    and look0: "\<forall>k. map_of sc k =
                 (case map_of (players s) k of
                    None \<Rightarrow> map_of [] k
                  | Some p \<Rightarrow> Some (if k = winnerId then 100 else - handValue_spec (hand p)))"
    by blast
  from look0 assms(2) have win: "map_of sc winnerId = Some 100" by simp
  let ?fs = "map (\<lambda>(playerId, p).
              (playerId,
               \<lparr>entryUserId = playerId, entryUsername = username p,
                entryScore = (case map_of (AList.update winnerId (100 + t) sc) playerId of
                                None \<Rightarrow> 0 | Some v \<Rightarrow> v),
                entryResult = (if playerId = winnerId then Winner else Loser),
                entryReason = GameCompleted\<rparr>)) (players s)"
  have k: "map fst ?fs = map fst (players s)" by (induction "players s") auto
  have "endGame s winnerId =
          \<lparr>rstate = s\<lparr>gamePhase := Ended, finalScores := Some ?fs\<rparr>,
           rsent = [BroadcastMessage
                      (GameEnded GameCompletedEnd (Some winnerId) (Some (username w)) ?fs
                         (Some winnerId))],
           rthrown = None\<rparr>"
    using sc win assms(2) by (simp add: endGame_def Let_def)
  with k show ?thesis by blast
qed

lemma matchLoop_idle:
  "gamePhase s \<noteq> Playing \<Longrightarrow> matchLoop rnd now s [] = \<lparr>rstate = s, rsent = [], rthrown = None\<rparr>"
  by (simp add: matchLoop_def split: option.splits)

subsection \<open>The handlers do not look at the phase\<close>

lemma advanceTurn_phase:
  "advanceTurn now (s\<lparr>gamePhase := ph\<rparr>) = (advanceTurn now s)\<lparr>gamePhase := ph\<rparr>"
  by (simp add: advanceTurn_def Let_def)

lemma reshuffleDeck_phase:
  "reshuffleDeck rnd (s\<lparr>gamePhase := ph\<rparr>) = (reshuffleDeck rnd s)\<lparr>gamePhase := ph\<rparr>"
  by (simp add: reshuffleDeck_def split: prod.splits)

lemma forcedDraw_phase:
  "forcedDraw k npid (s\<lparr>gamePhase := ph\<rparr>)
     = ((fst (forcedDraw k npid s))\<lparr>gamePhase := ph\<rparr>, snd (forcedDraw k npid s))"
proof (induction k arbitrary: s)
  case 0
  then show ?case by simp
next
  case (Suc k)
  show ?case
  proof (cases "deck s = []")
    case True
    then show ?thesis using Suc [of s] by simp
  next
    case False
    show ?thesis
    proof (cases npid)
      case None
      then show ?thesis using False by simp
    next
      case (Some pid)
      show ?thesis
      proof (cases "map_of (players s) pid")
        case None
        then show ?thesis using False Some by simp
      next
        case p: (Some p)
        let ?s1 = "s\<lparr>deck := butlast (deck s),
                     players := AList.update pid (p\<lparr>hand := hand p @ [last (deck s)]\<rparr>) (players s)\<rparr>"
        have pp: "pop (deck s) = (last (deck s), butlast (deck s))" using False by (simp add: pop_def)
        have a: "forcedDraw (Suc k) npid s = forcedDraw k npid ?s1"
          using False Some p pp by simp
        have c: "s\<lparr>gamePhase := ph, deck := butlast (deck s),
                    players := AList.update pid (p\<lparr>hand := hand p @ [last (deck s)]\<rparr>) (players s)\<rparr>
                 = ?s1\<lparr>gamePhase := ph\<rparr>"
          by (cases s) simp
        have b: "forcedDraw (Suc k) npid (s\<lparr>gamePhase := ph\<rparr>) = forcedDraw k npid (?s1\<lparr>gamePhase := ph\<rparr>)"
          using False Some p pp by (simp add: c)
        show ?thesis unfolding a b by (rule Suc)
      qed
    qed
  qed
qed

lemma applyCardEffects_phase:
  "applyCardEffects now (s\<lparr>gamePhase := ph\<rparr>) crd
     = ((fst (applyCardEffects now s crd))\<lparr>gamePhase := ph\<rparr>, snd (applyCardEffects now s crd))"
proof (cases crd)
  case None
  then show ?thesis by (simp add: applyCardEffects_def)
next
  case (Some c)
  then show ?thesis
    by (cases "type c")
       (simp_all add: applyCardEffects_def Let_def advanceTurn_phase forcedDraw_phase
          advanceTurn_def [of now "s\<lparr>gamePhase := ph\<rparr>"])
qed

lemma sendHands_phase:
  "snd (sendHands (s\<lparr>gamePhase := ph\<rparr>) ps) = snd (sendHands s ps)"
  by (induction ps) (auto simp: getPlayableCards_def split: sum.splits prod.splits option.splits)

lemma broadcastGameState_phase:
  "snd (broadcastGameState (s\<lparr>gamePhase := ph\<rparr>)) = snd (broadcastGameState s)"
  using sendHands_phase [where s = s and ph = ph and ps = "players s"]
  by (auto simp: broadcastGameState_def split: prod.splits)

lemma endGame_phase: "endGame (s\<lparr>gamePhase := ph\<rparr>) w = endGame s w"
  by (simp add: endGame_def)


lemma playAt_unfold:
  "rstate (playAt ev now s playerId p i) =
     (let s1 = s\<lparr>players := AList.update playerId (p\<lparr>hand := snd (spliceOne i (hand p))\<rparr>) (players s),
                  topCard := fst (spliceOne i (hand p)),
                  discardPile := discardPile s @ [fst (spliceOne i (hand p))]\<rparr>;
          r = applyCardEffects now s1 (fst (spliceOne i (hand p)))
      in if snd (spliceOne i (hand p)) = [] then rstate (endGame s1 playerId)
         else if snd r = None then advanceTurn now (fst r) else fst r)"
  "rthrown (playAt ev now s playerId p i) =
     (let s1 = s\<lparr>players := AList.update playerId (p\<lparr>hand := snd (spliceOne i (hand p))\<rparr>) (players s),
                  topCard := fst (spliceOne i (hand p)),
                  discardPile := discardPile s @ [fst (spliceOne i (hand p))]\<rparr>;
          r = applyCardEffects now s1 (fst (spliceOne i (hand p)))
      in if snd (spliceOne i (hand p)) = [] then rthrown (endGame s1 playerId)
         else if snd r = None then snd (broadcastGameState (advanceTurn now (fst r))) else snd r)"
  by (auto simp: playAt_def Let_def split: prod.splits option.splits)

lemma playAt_phase:
  "(rstate (playAt ev now (s\<lparr>gamePhase := ph\<rparr>) playerId p i))\<lparr>gamePhase := X\<rparr>
     = (rstate (playAt ev now s playerId p i))\<lparr>gamePhase := X\<rparr>
   \<and> rthrown (playAt ev now (s\<lparr>gamePhase := ph\<rparr>) playerId p i)
     = rthrown (playAt ev now s playerId p i)"
proof -
  let ?pc = "fst (spliceOne i (hand p))" and ?nh = "snd (spliceOne i (hand p))"
  let ?s1 = "s\<lparr>players := AList.update playerId (p\<lparr>hand := ?nh\<rparr>) (players s),
                topCard := ?pc, discardPile := discardPile s @ [?pc]\<rparr>"
  have c: "s\<lparr>gamePhase := ph, players := AList.update playerId (p\<lparr>hand := ?nh\<rparr>) (players s),
              topCard := ?pc, discardPile := discardPile s @ [?pc]\<rparr> = ?s1\<lparr>gamePhase := ph\<rparr>"
    by (cases s) simp
  show ?thesis
    by (simp add: playAt_unfold Let_def c endGame_phase applyCardEffects_phase advanceTurn_phase
          broadcastGameState_phase)
qed

lemma drawFor_unfold:
  "rstate (drawFor ev rnd now s playerId) =
     (let s1 = (if length (deck s) = 0 then reshuffleDeck rnd s else s);
          s2 = s1\<lparr>deck := snd (pop (deck s1))\<rparr>
      in case map_of (players s2) playerId of
           None \<Rightarrow> s2
         | Some p \<Rightarrow>
             advanceTurn now
               (s2\<lparr>players := AList.update playerId (p\<lparr>hand := hand p @ [fst (pop (deck s1))]\<rparr>)
                                (players s2)\<rparr>))"
  "rthrown (drawFor ev rnd now s playerId) =
     (let s1 = (if length (deck s) = 0 then reshuffleDeck rnd s else s);
          s2 = s1\<lparr>deck := snd (pop (deck s1))\<rparr>
      in case map_of (players s2) playerId of
           None \<Rightarrow> Some TypeError
         | Some p \<Rightarrow>
             snd (broadcastGameState (advanceTurn now
               (s2\<lparr>players := AList.update playerId (p\<lparr>hand := hand p @ [fst (pop (deck s1))]\<rparr>)
                                (players s2)\<rparr>))))"
  by (auto simp: drawFor_def Let_def split: prod.splits option.splits)

lemma drawFor_phase:
  "(rstate (drawFor ev rnd now (s\<lparr>gamePhase := ph\<rparr>) playerId))\<lparr>gamePhase := X\<rparr>
     = (rstate (drawFor ev rnd now s playerId))\<lparr>gamePhase := X\<rparr>
   \<and> rthrown (drawFor ev rnd now (s\<lparr>gamePhase := ph\<rparr>) playerId)
     = rthrown (drawFor ev rnd now s playerId)"
proof -
  let ?s1 = "if length (deck s) = 0 then reshuffleDeck rnd s else s"
  have a: "(if length (deck (s\<lparr>gamePhase := ph\<rparr>)) = 0 then reshuffleDeck rnd (s\<lparr>gamePhase := ph\<rparr>)
            else s\<lparr>gamePhase := ph\<rparr>) = ?s1\<lparr>gamePhase := ph\<rparr>"
    by (simp add: reshuffleDeck_phase)
  have c: "(t\<lparr>gamePhase := ph\<rparr>)\<lparr>players := q\<rparr> = (t\<lparr>players := q\<rparr>)\<lparr>gamePhase := ph\<rparr>"
    for t :: state and q
    by (cases t) simp
  have c': "(t\<lparr>gamePhase := ph\<rparr>)\<lparr>deck := d\<rparr> = (t\<lparr>deck := d\<rparr>)\<lparr>gamePhase := ph\<rparr>"
    for t :: state and d
    by (cases t) simp
  show ?thesis
    unfolding drawFor_unfold a
    by (cases "map_of (players ?s1) playerId")
       (simp_all add: Let_def c c' advanceTurn_phase broadcastGameState_phase)
qed

text \<open>
  Whatever the phase of the state a message meets, its handler leaves the same state,
  up to the phase field itself, and ends with the same exception.
\<close>

lemma dispatch_phase:
  "(rstate (dispatch rnd now (s\<lparr>gamePhase := ph\<rparr>) senderId a))\<lparr>gamePhase := X\<rparr>
     = (rstate (dispatch rnd now s senderId a))\<lparr>gamePhase := X\<rparr>
   \<and> rthrown (dispatch rnd now (s\<lparr>gamePhase := ph\<rparr>) senderId a)
     = rthrown (dispatch rnd now s senderId a)"
proof (cases a)
  case (PlayCard c)
  show ?thesis
    using playAt_phase [where s = s and ph = ph and X = X and ev = CardPlayed and now = now]
    by (simp add: PlayCard dispatch_def handlePlayCard_def split: option.splits sum.splits)
next
  case DrawCard
  show ?thesis
    using drawFor_phase [where s = s and ph = ph and X = X and ev = CardDrawn]
    by (simp add: DrawCard dispatch_def handleDrawCard_def)
next
  case CallUno
  have c: "(t\<lparr>gamePhase := ph\<rparr>)\<lparr>players := q\<rparr> = (t\<lparr>players := q\<rparr>)\<lparr>gamePhase := ph\<rparr>"
    for t :: state and q
    by (cases t) simp
  show ?thesis
    by (simp add: CallUno dispatch_def handleCallUno_def c split: option.splits)
next
  case PassTurn
  show ?thesis
    by (simp add: PassTurn dispatch_def handlePassTurn_def Let_def advanceTurn_phase
          broadcastGameState_phase split: prod.splits)
       (metis broadcastGameState_phase snd_conv)
next
  case UnknownType
  then show ?thesis by (simp add: dispatch_def)
next
  case Unparseable
  then show ?thesis by (simp add: dispatch_def)
qed


lemma drawFor_hand:
  assumes "map_of (players s) playerId = Some p"
  shows "handLength (rstate (drawFor ev rnd now s playerId)) playerId = Suc (length (hand p))
         \<and> gamePhase (rstate (drawFor ev rnd now s playerId)) = gamePhase s"
proof -
  let ?s1 = "if length (deck s) = 0 then reshuffleDeck rnd s else s"
  have pl: "players ?s1 = players s" "gamePhase ?s1 = gamePhase s"
    by (simp_all add: reshuffleDeck_def split: prod.splits)
  show ?thesis
    unfolding drawFor_unfold
    using assms pl
    by (simp add: Let_def handLength_def advanceTurn_fields update_conv)
qed

lemma matchLoop_single:
  assumes "gamePhase (rstate (dispatch (rnd 0) now s senderId a)) \<noteq> Playing"
  shows "rstate (matchLoop rnd now s [(senderId, a)]) = rstate (dispatch (rnd 0) now s senderId a)"
  using assms by (simp add: matchLoop_def Let_def split: option.splits)

text \<open>
  C3 (as amended). The player to act holds one card, a card that \<open>isValidPlay\<close>
  accepts, and plays it, or the timer plays it: both paths end in \<open>endGame\<close> with the
  same outcome. The final scores are stored, one record per player; the only message is
  \<open>game_ended\<close>, naming the winner and carrying those scores; the phase is no longer
  \<open>playing\<close>, so the next \<open>matchLoop\<close> without messages does nothing (the turn timer
  has stopped); the turn is not advanced and stays with the winner. No handler looks at
  the phase: whatever the phase of the state \<open>t\<close> a message meets, its handler leaves
  the same state, up to the phase field itself, and ends with the same exception. So
  later actions of the player to act are still carried out: a \<open>draw_card\<close> of the
  winner in the next \<open>matchLoop\<close> puts an entry into the winner's empty hand.
\<close>

theorem empty_hand_ends_the_game:
  assumes "distinct (map fst (players s))"
    and "currentTurn s = Some playerId"
    and "map_of (players s) playerId = Some p"
    and "hand p = [Some c]"
    and "isValidPlay (Some c) (topCard s) = Inr True"
    and "\<forall>(k, q) \<in> set (players s). None \<notin> set (hand q)"
  shows "(\<exists>fs. rsent (handlePlayCard now s playerId (Some c)) =
                [BroadcastMessage
                   (GameEnded GameCompletedEnd (Some playerId) (Some (username p)) fs
                      (Some playerId))]
            \<and> rthrown (handlePlayCard now s playerId (Some c)) = None
            \<and> finalScores (rstate (handlePlayCard now s playerId (Some c))) = Some fs
            \<and> map fst fs = map fst (players s)
            \<and> gamePhase (rstate (handlePlayCard now s playerId (Some c))) \<noteq> Playing
            \<and> currentTurn (rstate (handlePlayCard now s playerId (Some c))) = Some playerId
            \<and> handLength (rstate (handlePlayCard now s playerId (Some c))) playerId = 0
            \<and> handleAutoPlay rnd now s = handlePlayCard now s playerId (Some c)
            \<and> matchLoop rnd' now' (rstate (handlePlayCard now s playerId (Some c))) []
                = \<lparr>rstate = rstate (handlePlayCard now s playerId (Some c)), rsent = [],
                   rthrown = None\<rparr>)
         \<and> (rstate (dispatch rnd now (t\<lparr>gamePhase := ph\<rparr>) senderId a))\<lparr>gamePhase := X\<rparr>
             = (rstate (dispatch rnd now t senderId a))\<lparr>gamePhase := X\<rparr>
         \<and> rthrown (dispatch rnd now (t\<lparr>gamePhase := ph\<rparr>) senderId a)
             = rthrown (dispatch rnd now t senderId a)
         \<and> handLength (rstate (handlePlayCard now s playerId (Some c))) playerId = 0
         \<and> handLength (rstate (matchLoop rnd' now'
                                (rstate (handlePlayCard now s playerId (Some c)))
                                [(playerId, DrawCard)])) playerId = 1"
proof -
  let ?s1 = "s\<lparr>players := AList.update playerId (p\<lparr>hand := []\<rparr>) (players s),
                topCard := Some c, discardPile := discardPile s @ [Some c]\<rparr>"
  have manual: "handlePlayCard now s playerId (Some c) = endGame ?s1 playerId"
    using assms(2-5) by (simp add: handlePlayCard_def playAt_def spliceOne_def)
  have auto: "handleAutoPlay rnd now s = endGame ?s1 playerId"
    using assms(2-5) by (simp add: handleAutoPlay_def playAt_def spliceOne_def)
  have keys1: "map fst (players ?s1) = map fst (players s)"
    using assms(3) by (simp add: keys_update_present)
  have d1: "distinct (map fst (players ?s1))" using keys1 assms(1) by simp
  have w1: "map_of (players ?s1) playerId = Some (p\<lparr>hand := []\<rparr>)" by (simp add: update_conv)
  have h1: "\<forall>(k, q) \<in> set (players ?s1). None \<notin> set (hand q)"
  proof -
    have "None \<notin> set (hand q)" if "(k, q) \<in> set (AList.update playerId (p\<lparr>hand := []\<rparr>) (players s))" for k q
    proof -
      from that d1 have "map_of (AList.update playerId (p\<lparr>hand := []\<rparr>) (players s)) k = Some q"
        by simp
      then have "(if k = playerId then Some (p\<lparr>hand := []\<rparr>) else map_of (players s) k) = Some q"
        by (simp add: update_conv)
      then show ?thesis using assms(6) by (auto split: if_splits dest: map_of_SomeD)
    qed
    then show ?thesis by auto
  qed
  from endGame_outcome [OF d1 w1 h1] obtain fs where fs:
    "map fst fs = map fst (players ?s1)"
    "endGame ?s1 playerId =
       \<lparr>rstate = ?s1\<lparr>gamePhase := Ended, finalScores := Some fs\<rparr>,
        rsent = [BroadcastMessage
                   (GameEnded GameCompletedEnd (Some playerId) (Some (username (p\<lparr>hand := []\<rparr>))) fs
                      (Some playerId))],
        rthrown = None\<rparr>"
    by blast
  have idle: "matchLoop rnd' now' (?s1\<lparr>gamePhase := Ended, finalScores := Some fs\<rparr>) []
              = \<lparr>rstate = ?s1\<lparr>gamePhase := Ended, finalScores := Some fs\<rparr>, rsent = [],
                 rthrown = None\<rparr>"
    by (rule matchLoop_idle) simp
  have first: "\<exists>fs. rsent (handlePlayCard now s playerId (Some c)) =
                [BroadcastMessage
                   (GameEnded GameCompletedEnd (Some playerId) (Some (username p)) fs
                      (Some playerId))]
            \<and> rthrown (handlePlayCard now s playerId (Some c)) = None
            \<and> finalScores (rstate (handlePlayCard now s playerId (Some c))) = Some fs
            \<and> map fst fs = map fst (players s)
            \<and> gamePhase (rstate (handlePlayCard now s playerId (Some c))) \<noteq> Playing
            \<and> currentTurn (rstate (handlePlayCard now s playerId (Some c))) = Some playerId
            \<and> handLength (rstate (handlePlayCard now s playerId (Some c))) playerId = 0
            \<and> handleAutoPlay rnd now s = handlePlayCard now s playerId (Some c)
            \<and> matchLoop rnd' now' (rstate (handlePlayCard now s playerId (Some c))) []
                = \<lparr>rstate = rstate (handlePlayCard now s playerId (Some c)), rsent = [],
                   rthrown = None\<rparr>"
    apply (rule exI [of _ fs])
    using fs keys1 assms(2) idle
    by (simp add: manual auto handLength_def update_conv)
  let ?s' = "?s1\<lparr>gamePhase := Ended, finalScores := Some fs\<rparr>"
  have st: "rstate (handlePlayCard now s playerId (Some c)) = ?s'"
    using fs(2) by (simp add: manual)
  have empty: "handLength ?s' playerId = 0" by (simp add: handLength_def update_conv)
  have w': "map_of (players ?s') playerId = Some (p\<lparr>hand := []\<rparr>)" by (simp add: update_conv)
  have turn': "currentTurn ?s' = Some playerId" using assms(2) by simp
  have dis: "dispatch (rnd' 0) now' ?s' playerId DrawCard = drawFor CardDrawn (rnd' 0) now' ?s' playerId"
    using turn' by (simp add: dispatch_def handleDrawCard_def)
  from drawFor_hand [OF w', of CardDrawn "rnd' 0" now']
  have dr: "handLength (rstate (drawFor CardDrawn (rnd' 0) now' ?s' playerId)) playerId = 1"
    "gamePhase (rstate (drawFor CardDrawn (rnd' 0) now' ?s' playerId)) = Ended"
    by simp_all
  have "gamePhase (rstate (dispatch (rnd' 0) now' ?s' playerId DrawCard)) \<noteq> Playing"
    using dr(2) by (simp add: dis)
  from matchLoop_single [where rnd = rnd' and now = now' and s = ?s' and senderId = playerId
      and a = DrawCard, OF this]
  have later: "handLength (rstate (matchLoop rnd' now' ?s' [(playerId, DrawCard)])) playerId = 1"
    using dr(1) by (simp add: dis)
  from first dispatch_phase [where rnd = rnd and now = now and s = t and ph = ph
      and senderId = senderId and a = a and X = X] empty later
  show ?thesis unfolding st by blast
qed

theorem empty_hand_ends_the_game_witness:
  "rsent (handlePlayCard 5 tableLastCard ''a'' red5) =
     [BroadcastMessage
        (GameEnded GameCompletedEnd (Some ''a'') (Some ''a'')
           [(''a'', \<lparr>entryUserId = ''a'', entryUsername = ''a'', entryScore = 179,
                      entryResult = Winner, entryReason = GameCompleted\<rparr>),
            (''b'', \<lparr>entryUserId = ''b'', entryUsername = ''b'', entryScore = - 79,
                      entryResult = Loser, entryReason = GameCompleted\<rparr>)]
           (Some ''a''))]
   \<and> gamePhase (rstate (handlePlayCard 5 tableLastCard ''a'' red5)) \<noteq> Playing
   \<and> currentTurn (rstate (handlePlayCard 5 tableLastCard ''a'' red5)) = Some ''a''
   \<and> handleAutoPlay (\<lambda>i. 0) 5 tableLastCard = handlePlayCard 5 tableLastCard ''a'' red5
   \<and> matchLoop (\<lambda>k i. 0) 99000 (rstate (handlePlayCard 5 tableLastCard ''a'' red5)) []
       = \<lparr>rstate = rstate (handlePlayCard 5 tableLastCard ''a'' red5), rsent = [],
          rthrown = None\<rparr>
   \<and> handLength (rstate (handlePlayCard 5 tableLastCard ''a'' red5)) ''a'' = 0
   \<and> handLength (rstate (matchLoop (\<lambda>k i. 0) 99000
                            (rstate (handlePlayCard 5 tableLastCard ''a'' red5))
                            [(''a'', DrawCard)])) ''a'' = 1"
proof -
  let ?p = "demoPlayer ''a'' [red5]"
  have d: "distinct (map fst (players tableLastCard))" by code_simp
  have t: "currentTurn tableLastCard = Some ''a''" by code_simp
  have w: "map_of (players tableLastCard) ''a'' = Some ?p" by code_simp
  have h: "hand ?p = [red5]" by code_simp
  have v: "isValidPlay red5 (topCard tableLastCard) = Inr True" by code_simp
  have a: "\<forall>(k, q) \<in> set (players tableLastCard). None \<notin> set (hand q)" by code_simp
  have f: "finalScores (rstate (handlePlayCard 5 tableLastCard ''a'' red5)) =
     Some [(''a'', \<lparr>entryUserId = ''a'', entryUsername = ''a'', entryScore = 179,
                      entryResult = Winner, entryReason = GameCompleted\<rparr>),
            (''b'', \<lparr>entryUserId = ''b'', entryUsername = ''b'', entryScore = - 79,
                      entryResult = Loser, entryReason = GameCompleted\<rparr>)]"
    by code_simp
  have n: "username ?p = ''a''" by code_simp
  from empty_hand_ends_the_game [OF d t w h v a, where now = 5 and rnd = "\<lambda>i. 0"
      and rnd' = "\<lambda>k i. 0" and now' = 99000]
  show ?thesis unfolding f n by auto
qed

text \<open>
  The claim as stated fails: after the winning play the phase is not \<open>finished\<close>, and
  a \<open>draw_card\<close> of the winner, whose turn it still is, is carried out by the next
  \<open>matchLoop\<close> (no handler looks at the phase).
\<close>

theorem actions_after_the_end_counterexample:
  "gamePhase (rstate (handlePlayCard 5 tableLastCard ''a'' red5)) \<noteq> Finished
   \<and> handLength (rstate (handlePlayCard 5 tableLastCard ''a'' red5)) ''a'' = 0
   \<and> handLength (rstate (matchLoop (\<lambda>k i. 0) 6
                            (rstate (handlePlayCard 5 tableLastCard ''a'' red5))
                            [(''a'', DrawCard)])) ''a'' = 1"
  by code_simp

subsection \<open>A draw from an exhausted deck\<close>

text \<open>
  C9 (the code departs from the claim). The deck is empty and the discard pile holds the
  top card only; player a, whose turn it is, draws. The reshuffle leaves the deck empty,
  the pop yields \<open>undefined\<close>, which is pushed onto the hand, and the turn goes to
  player b. Then \<open>broadcastGameState\<close> sends \<open>game_state\<close> and throws a TypeError in
  \<open>getPlayableCards\<close>, where \<open>isValidPlay\<close> reads \<open>card.type\<close> of the undefined
  entry: \<open>handleDrawCard\<close> ends with the exception and \<open>card_drawn\<close> is never sent.
  \<open>matchLoop\<close> catches it for a \<open>draw_card\<close> message; on the timer path the same
  exception leaves \<open>matchLoop\<close>, with no \<open>auto_draw\<close>.
\<close>

theorem draw_from_exhausted_deck_throws:
  "rthrown (handleDrawCard (\<lambda>i. 0) 5 tableExhausted ''a'') = Some TypeError
   \<and> rsent (handleDrawCard (\<lambda>i. 0) 5 tableExhausted ''a'')
       = [BroadcastMessage (gameStateMessage (rstate (handleDrawCard (\<lambda>i. 0) 5 tableExhausted ''a'')))]
   \<and> map (\<lambda>(k, p). (k, hand p)) (players (rstate (handleDrawCard (\<lambda>i. 0) 5 tableExhausted ''a'')))
       = [(''a'', [green3, None]), (''b'', [blueSkip])]
   \<and> currentTurn (rstate (handleDrawCard (\<lambda>i. 0) 5 tableExhausted ''a'')) = Some ''b''
   \<and> rthrown (matchLoop (\<lambda>k i. 0) 5 tableExhausted [(''a'', DrawCard)]) = None
   \<and> rthrown (matchLoop (\<lambda>k i. 0) 20000 tableExhausted []) = Some TypeError
   \<and> rsent (matchLoop (\<lambda>k i. 0) 20000 tableExhausted [])
       = [BroadcastMessage (TimerUpdate (Some ''a'') 0),
          BroadcastMessage (gameStateMessage (rstate (matchLoop (\<lambda>k i. 0) 20000 tableExhausted [])))]
   \<and> map (\<lambda>(k, p). (k, hand p)) (players (rstate (matchLoop (\<lambda>k i. 0) 20000 tableExhausted [])))
       = [(''a'', [green3, None]), (''b'', [blueSkip])]"
  by code_simp

subsection \<open>The deal and the initial flip\<close>

lemma dealHand_mset:
  "k \<le> length d \<Longrightarrow> dealHand k d = (h, d') \<Longrightarrow>
   mset h + mset d' = mset d \<and> length d' = length d - k"
proof (induction k arbitrary: d h d')
  case 0
  then show ?case by simp
next
  case (Suc k)
  then have ne: "d \<noteq> []" by auto
  then have pp: "pop d = (last d, butlast d)" by (simp add: pop_def)
  obtain h1 d1 where r: "dealHand k (butlast d) = (h1, d1)" by (cases "dealHand k (butlast d)")
  have "k \<le> length (butlast d)" using Suc.prems(1) by simp
  from Suc.IH [OF this r] have ih: "mset h1 + mset d1 = mset (butlast d)"
    "length d1 = length (butlast d) - k" by auto
  from Suc.prems(2) pp r have hd: "h = last d # h1" "d' = d1" by auto
  have "add_mset (last d) (mset (butlast d)) = mset d" using pop_mset [OF ne pp] .
  then have "mset h + mset d' = mset d" using ih(1) hd by (simp add: ac_simps flip: ih(1))
  then show ?case using ih(2) hd by simp
qed

lemma dealAll_mset:
  "7 * length ps \<le> length d \<Longrightarrow> dealAll ps d = (ps', d') \<Longrightarrow>
   handsOf ps' + mset d' = mset d \<and> map fst ps' = map fst ps
   \<and> length d' = length d - 7 * length ps"
proof (induction ps arbitrary: d ps' d')
  case Nil
  then show ?case by (simp add: handsOf_def)
next
  case (Cons a ps)
  obtain pid p where a: "a = (pid, p)" by (cases a)
  obtain h d1 where h: "dealHand 7 d = (h, d1)" by (cases "dealHand 7 d")
  obtain ps1 d2 where r: "dealAll ps d1 = (ps1, d2)" by (cases "dealAll ps d1")
  have "7 \<le> length d" using Cons.prems(1) by simp
  from dealHand_mset [OF this h] have hm: "mset h + mset d1 = mset d" "length d1 = length d - 7"
    by auto
  have "7 * length ps \<le> length d1" using Cons.prems(1) hm(2) by simp
  from Cons.IH [OF this r] have ih: "handsOf ps1 + mset d2 = mset d1" "map fst ps1 = map fst ps"
    "length d2 = length d1 - 7 * length ps" by auto
  from Cons.prems(2) a h r have res: "ps' = (pid, p\<lparr>hand := h\<rparr>) # ps1" "d' = d2" by auto
  have "handsOf ps' + mset d' = mset h + (handsOf ps1 + mset d2)"
    using res by (simp add: handsOf_def)
  then show ?case using ih hm res a by simp
qed

lemma flipFirst_cards:
  "None \<notin> set d \<Longrightarrow> \<exists>x \<in> set d. \<not> isWildSlot x \<Longrightarrow>
   \<exists>c d'. flipFirst d = (Some c, d', None) \<and> \<not> isWildSlot (Some c)
          \<and> mset d = mset d' + {#Some c#} + mset (takeWhile isWildSlot (rev d))"
proof (induction d rule: rev_induct)
  case Nil
  then show ?case by simp
next
  case (snoc x xs)
  from snoc.prems(1) obtain c where x: "x = Some c" by (cases x) auto
  have pp: "pop (xs @ [x]) = (Some c, xs)" using x by (simp add: pop_def)
  show ?case
  proof (cases "isWildSlot x")
    case False
    with flipFirst.simps [of "xs @ [x]"] pp x have "flipFirst (xs @ [x]) = (Some c, xs, None)"
      by (simp add: isWildSlot_def)
    then show ?thesis using False x by simp
  next
    case True
    with flipFirst.simps [of "xs @ [x]"] pp x have step: "flipFirst (xs @ [x]) = flipFirst xs"
      by (simp add: isWildSlot_def)
    from True snoc.prems have "None \<notin> set xs" "\<exists>y \<in> set xs. \<not> isWildSlot y" by auto
    from snoc.IH [OF this] obtain c' d' where
      "flipFirst xs = (Some c', d', None)" "\<not> isWildSlot (Some c')"
      "mset xs = mset d' + {#Some c'#} + mset (takeWhile isWildSlot (rev xs))"
      by blast
    then show ?thesis using step True by simp
  qed
qed

lemma createDeck_facts:
  "length createDeck = 108" "None \<notin> set createDeck" "length (filter isWildSlot createDeck) = 8"
  by code_simp+

lemma few_wild_cards:
  assumes "mset d + m = mset createDeck" and "8 < length d"
  shows "\<exists>x \<in> set d. \<not> isWildSlot x"
proof (rule ccontr)
  assume "\<not> (\<exists>x \<in> set d. \<not> isWildSlot x)"
  then have "filter isWildSlot d = d" by (simp add: filter_id_conv)
  then have "size (filter_mset isWildSlot (mset d)) = length d"
    by (metis mset_filter size_mset)
  moreover have "filter_mset isWildSlot (mset d) \<subseteq># filter_mset isWildSlot (mset createDeck)"
    using assms(1) by (metis mset_subset_eq_add_left multiset_filter_mono)
  then have "size (filter_mset isWildSlot (mset d)) \<le> size (filter_mset isWildSlot (mset createDeck))"
    by (rule size_mset_mono)
  moreover have "size (filter_mset isWildSlot (mset createDeck)) = 8"
    using createDeck_facts(3) by (metis mset_filter size_mset)
  ultimately show False using assms(2) by simp
qed

lemma startGame_cards:
  assumes "length (players s) = 2"
  shows "allCards (rstate (startGame rnd now s)) + mset (flippedWilds rnd s) = mset createDeck
         \<and> gamePhase (rstate (startGame rnd now s)) = Playing"
proof -
  let ?d0 = "shuffleDeck rnd createDeck"
  obtain ps d1 where deal: "dealAll (players s) ?d0 = (ps, d1)"
    by (cases "dealAll (players s) ?d0")
  have l0: "length ?d0 = 108" by (simp add: length_shuffleDeck createDeck_facts)
  have "7 * length (players s) \<le> length ?d0" using assms l0 by simp
  from dealAll_mset [OF this deal]
  have dm: "handsOf ps + mset d1 = mset ?d0" "length d1 = length ?d0 - 7 * length (players s)"
    by auto
  have l1: "8 < length d1" using dm(2) l0 assms by simp
  have m0: "mset ?d0 = mset createDeck" by (rule mset_shuffleDeck)
  have "mset d1 + handsOf ps = mset createDeck" using dm(1) m0 by (simp add: ac_simps)
  from few_wild_cards [OF this l1] have nw: "\<exists>x \<in> set d1. \<not> isWildSlot x" .
  have "set_mset (mset d1) \<subseteq> set_mset (mset ?d0)"
    using dm(1) by (metis mset_subset_eq_add_right set_mset_mono)
  then have "set d1 \<subseteq> set createDeck" by (simp add: set_shuffleDeck)
  then have nn: "None \<notin> set d1" using createDeck_facts(2) by auto
  from flipFirst_cards [OF nn nw] obtain c d2 where flip:
    "flipFirst d1 = (Some c, d2, None)"
    "mset d1 = mset d2 + {#Some c#} + mset (takeWhile isWildSlot (rev d1))"
    by blast
  have fw: "flippedWilds rnd s = takeWhile isWildSlot (rev d1)"
    using deal by (simp add: flippedWilds_def)
  let ?s1 = "s\<lparr>deck := d2, players := ps, topCard := Some c, discardPile := [Some c],
                currentTurn := arrayAt (map fst ps) 0, direction := 1,
                gameStarted := True, gamePhase := Playing, turnStartTime := Some now\<rparr>"
  have st: "rstate (startGame rnd now s) = ?s1"
    using deal flip(1) by (simp add: startGame_def Let_def split: prod.splits option.splits)
  have "allCards ?s1 + mset (flippedWilds rnd s)
        = handsOf ps + (mset d2 + {#Some c#} + mset (takeWhile isWildSlot (rev d1)))"
    by (simp add: allCards_def fw ac_simps)
  also have "\<dots> = mset createDeck" using flip(2) dm(1) m0 by simp
  finally show ?thesis using st by simp
qed

subsection \<open>Operations that keep the cards of the match\<close>

lemma allCards_endGame: "allCards (rstate (endGame s w)) = allCards s"
  by (simp add: endGame_def Let_def allCards_def split: sum.splits prod.splits option.splits)

lemma forcedDraw_cards:
  "distinct (map fst (players s)) \<Longrightarrow>
   allCards (fst (forcedDraw k npid s)) = allCards s
   \<and> map fst (players (fst (forcedDraw k npid s))) = map fst (players s)"
proof (induction k arbitrary: s)
  case 0
  then show ?case by simp
next
  case (Suc k)
  show ?case
  proof (cases "deck s = []")
    case True
    then show ?thesis using Suc by simp
  next
    case False
    show ?thesis
    proof (cases npid)
      case None
      then show ?thesis using False by simp
    next
      case (Some pid)
      show ?thesis
      proof (cases "map_of (players s) pid")
        case None
        then show ?thesis using False Some by simp
      next
        case (Some p)
        let ?c = "last (deck s)" and ?d = "butlast (deck s)"
        let ?s1 = "s\<lparr>deck := ?d, players := AList.update pid (p\<lparr>hand := hand p @ [?c]\<rparr>) (players s)\<rparr>"
        have pp: "pop (deck s) = (?c, ?d)" using False by (simp add: pop_def)
        have step: "forcedDraw (Suc k) npid s = forcedDraw k npid ?s1"
          using False Some \<open>npid = Some pid\<close> pp by simp
        have keys1: "map fst (players ?s1) = map fst (players s)"
          using Some by (simp add: keys_update_present)
        have "add_mset ?c (mset ?d) = mset (deck s)" using pop_mset [OF False pp] .
        moreover have "handsOf (AList.update pid (p\<lparr>hand := hand p @ [?c]\<rparr>) (players s))
                       = handsOf (players s) + mset [?c]"
          using handsOf_append [OF Suc.prems Some] .
        ultimately have cards1: "allCards ?s1 = allCards s" by (simp add: allCards_def)
        have "distinct (map fst (players ?s1))" using keys1 Suc.prems by simp
        from Suc.IH [OF this] show ?thesis using step keys1 cards1 by simp
      qed
    qed
  qed
qed

lemma applyCardEffects_cards:
  assumes "distinct (map fst (players s))"
  shows "allCards (fst (applyCardEffects now s crd)) = allCards s
         \<and> map fst (players (fst (applyCardEffects now s crd))) = map fst (players s)"
proof (cases crd)
  case None
  then show ?thesis by (simp add: applyCardEffects_def)
next
  case (Some c)
  have d: "distinct (map fst (players (advanceTurn now s)))"
    using assms by (simp add: advanceTurn_fields)
  show ?thesis
    using Some forcedDraw_cards [OF d] allCards_advanceTurn [of now s]
    by (cases "type c") (simp_all add: applyCardEffects_def Let_def advanceTurn_fields allCards_def)
qed

lemma playAt_cards:
  assumes "distinct (map fst (players s))" and "map_of (players s) playerId = Some p"
    and "i < length (hand p)"
  shows "allCards (rstate (playAt ev now s playerId p i)) = allCards s"
proof -
  let ?nh = "take i (hand p) @ drop (Suc i) (hand p)"
  let ?pc = "hand p ! i"
  let ?s1 = "s\<lparr>players := AList.update playerId (p\<lparr>hand := ?nh\<rparr>) (players s),
                topCard := ?pc, discardPile := discardPile s @ [?pc]\<rparr>"
  have sp: "spliceOne i (hand p) = (?pc, ?nh)" using assms(3) by (simp add: spliceOne_def)
  have "handsOf (AList.update playerId (p\<lparr>hand := ?nh\<rparr>) (players s)) + {#?pc#} = handsOf (players s)"
    using handsOf_remove [OF assms] .
  then have c1: "allCards ?s1 = allCards s" by (simp add: allCards_def flip: \<open>_ = handsOf (players s)\<close>)
  have d1: "distinct (map fst (players ?s1))"
    using assms(1,2) by (simp add: keys_update_present)
  obtain s2 e where eff: "applyCardEffects now ?s1 ?pc = (s2, e)"
    by (cases "applyCardEffects now ?s1 ?pc")
  from applyCardEffects_cards [OF d1, of now ?pc] eff have c2: "allCards s2 = allCards ?s1"
    by simp
  have "rstate (playAt ev now s playerId p i) = rstate (endGame ?s1 playerId)
        \<or> rstate (playAt ev now s playerId p i) = s2
        \<or> rstate (playAt ev now s playerId p i) = advanceTurn now s2"
    using sp eff by (simp add: playAt_def Let_def split: prod.splits option.splits)
  then show ?thesis using c1 c2 by (auto simp: allCards_endGame allCards_advanceTurn)
qed

lemma reshuffleDeck_cards:
  assumes "deck s = []" and "discardPile s \<noteq> []"
  shows "allCards (reshuffleDeck rnd s) = allCards s"
proof -
  have p: "pop (discardPile s) = (last (discardPile s), butlast (discardPile s))"
    using assms(2) by (simp add: pop_def)
  have "add_mset (last (discardPile s)) (mset (butlast (discardPile s))) = mset (discardPile s)"
    using pop_mset [OF assms(2) p] .
  then show ?thesis using assms(1) p by (simp add: reshuffleDeck_def allCards_def mset_shuffleDeck)
qed

lemma drawFor_cards:
  assumes "distinct (map fst (players s))" and "map_of (players s) playerId = Some p"
    and "deck s \<noteq> [] \<or> 2 \<le> length (discardPile s)"
  shows "allCards (rstate (drawFor ev rnd now s playerId)) = allCards s"
proof -
  let ?s1 = "if length (deck s) = 0 then reshuffleDeck rnd s else s"
  have c1: "allCards ?s1 = allCards s"
  proof (cases "deck s = []")
    case False
    then show ?thesis by simp
  next
    case True
    with assms(3) have "discardPile s \<noteq> []" by auto
    from reshuffleDeck_cards [OF True this] show ?thesis using True by simp
  qed
  have ne: "deck ?s1 \<noteq> []"
  proof (cases "deck s = []")
    case False
    then show ?thesis by simp
  next
    case True
    with assms(3) have two: "2 \<le> length (discardPile s)" by simp
    then have "discardPile s \<noteq> []" by auto
    then have "deck (reshuffleDeck rnd s) = shuffleDeck rnd (butlast (discardPile s))"
      by (simp add: reshuffleDeck_def pop_def)
    moreover have "length (shuffleDeck rnd (butlast (discardPile s))) = length (discardPile s) - 1"
      by (simp add: length_shuffleDeck)
    ultimately have "length (deck (reshuffleDeck rnd s)) \<noteq> 0" using two by simp
    then show ?thesis using True by simp
  qed
  have pl1: "players ?s1 = players s" by (simp add: reshuffleDeck_def split: prod.splits)
  let ?c = "last (deck ?s1)" and ?d = "butlast (deck ?s1)"
  let ?s3 = "?s1\<lparr>deck := ?d, players := AList.update playerId (p\<lparr>hand := hand p @ [?c]\<rparr>) (players ?s1)\<rparr>"
  have pp: "pop (deck ?s1) = (?c, ?d)" using ne by (simp add: pop_def)
  have "add_mset ?c (mset ?d) = mset (deck ?s1)" using pop_mset [OF ne pp] .
  moreover have "handsOf (AList.update playerId (p\<lparr>hand := hand p @ [?c]\<rparr>) (players ?s1))
                 = handsOf (players ?s1) + mset [?c]"
    using handsOf_append [of "players ?s1" playerId p "[?c]"] assms(1,2) pl1 by simp
  ultimately have c3: "allCards ?s3 = allCards ?s1" by (simp add: allCards_def)
  have "rstate (drawFor ev rnd now s playerId) = advanceTurn now ?s3"
    using pp assms(2) pl1 by (simp add: drawFor_def Let_def split: prod.splits option.splits)
  then show ?thesis using c1 c3 by (simp add: allCards_advanceTurn)
qed

lemma playableIndices_bound:
  "playableIndices h t k = Inr xs \<Longrightarrow> \<forall>i \<in> set xs. k \<le> i \<and> i < k + length h"
proof (induction h arbitrary: k xs)
  case Nil
  then show ?case by simp
next
  case (Cons c h)
  from Cons.prems obtain v r where v: "isValidPlay c t = Inr v"
    and r: "playableIndices h t (Suc k) = Inr r" and xs: "xs = (if v then k # r else r)"
    by (auto split: sum.splits)
  from Cons.IH [OF r] have "\<forall>i \<in> set r. Suc k \<le> i \<and> i < Suc k + length h" .
  then show ?case using xs by auto
qed

subsection \<open>The cards of a match\<close>

lemma createDeck_composition:
  "length createDeck = 108
   \<and> (\<forall>c \<in> set colors.
         count (mset createDeck) (Some (mkCard c Number (Some 0))) = 1
         \<and> (\<forall>n \<in> set [1..9]. count (mset createDeck) (Some (mkCard c Number (Some n))) = 2)
         \<and> (\<forall>a \<in> set actionTypes. count (mset createDeck) (Some (mkCard c a None)) = 2))
   \<and> count (mset createDeck) (Some (mkCard WildColor Wild None)) = 4
   \<and> count (mset createDeck) (Some (mkCard WildColor WildDrawFour None)) = 4"
  by code_simp

lemma handlePlayCard_cards:
  assumes "distinct (map fst (players s))"
  shows "allCards (rstate (handlePlayCard now s playerId dcard)) = allCards s"
proof (cases "currentTurn s = Some playerId")
  case False
  then show ?thesis by (simp add: handlePlayCard_def)
next
  case True
  show ?thesis
  proof (cases "map_of (players s) playerId")
    case None
    then show ?thesis using True by (simp add: handlePlayCard_def)
  next
    case (Some p)
    show ?thesis
    proof (cases "findCardIndex (hand p) dcard 0")
      case (Inl e)
      then show ?thesis using True Some by (simp add: handlePlayCard_def)
    next
      case (Inr r)
      show ?thesis
      proof (cases r)
        case None
        then show ?thesis using True Some Inr by (simp add: handlePlayCard_def)
      next
        case (Some i)
        with Inr have "findCardIndex (hand p) dcard 0 = Inr (Some i)" by simp
        from findCardIndex_bound [OF this] have "i < length (hand p)" by simp
        from playAt_cards [OF assms \<open>map_of (players s) playerId = Some p\<close> this]
        have "allCards (rstate (playAt CardPlayed now s playerId p i)) = allCards s" .
        then show ?thesis
          using True \<open>map_of (players s) playerId = Some p\<close> Inr Some
          by (simp add: handlePlayCard_def split: sum.splits)
      qed
    qed
  qed
qed

lemma handleAutoPlay_cards:
  assumes "distinct (map fst (players s))"
    and "autoPlayDraws s \<longrightarrow> deck s \<noteq> [] \<or> 2 \<le> length (discardPile s)"
  shows "allCards (rstate (handleAutoPlay rnd now s)) = allCards s"
proof (cases "currentTurn s")
  case None
  then show ?thesis by (simp add: handleAutoPlay_def)
next
  case (Some pid)
  show ?thesis
  proof (cases "map_of (players s) pid")
    case None
    then show ?thesis using Some by (simp add: handleAutoPlay_def)
  next
    case p: (Some p)
    show ?thesis
    proof (cases "playableIndices (hand p) (topCard s) 0")
      case (Inl e)
      then show ?thesis using Some p by (simp add: handleAutoPlay_def)
    next
      case (Inr xs)
      show ?thesis
      proof (cases xs)
        case Nil
        with Some p Inr have "autoPlayDraws s" by (simp add: autoPlayDraws_def)
        with assms(2) have c: "deck s \<noteq> [] \<or> 2 \<le> length (discardPile s)" by simp
        show ?thesis
          using Some p Inr Nil drawFor_cards [OF assms(1) p c] by (simp add: handleAutoPlay_def)
      next
        case (Cons i rest)
        from playableIndices_bound [OF Inr] Cons have "i < length (hand p)" by simp
        from playAt_cards [OF assms(1) p this] show ?thesis
          using Some p Inr Cons by (simp add: handleAutoPlay_def)
      qed
    qed
  qed
qed

lemma handsOf_same_hand:
  "distinct (map fst ps) \<Longrightarrow> map_of ps k = Some p \<Longrightarrow> hand q = hand p \<Longrightarrow>
   handsOf (AList.update k q ps) = handsOf ps"
proof (induction ps)
  case Nil
  then show ?case by simp
next
  case (Cons a ps)
  obtain k' p' where a: "a = (k', p')" by (cases a)
  show ?case
  proof (cases "k' = k")
    case True
    then show ?thesis using Cons.prems a by (simp add: handsOf_def)
  next
    case False
    then have "handsOf (AList.update k q ps) = handsOf ps" using Cons a by simp
    then show ?thesis using False a by (simp add: handsOf_def)
  qed
qed

lemma handleCallUno_cards:
  assumes "distinct (map fst (players s))"
  shows "allCards (rstate (handleCallUno s playerId)) = allCards s"
proof (cases "map_of (players s) playerId")
  case None
  then show ?thesis by (simp add: handleCallUno_def)
next
  case (Some p)
  have "handsOf (AList.update playerId (p\<lparr>calledUno := True\<rparr>) (players s)) = handsOf (players s)"
    by (rule handsOf_same_hand [OF assms Some]) simp
  then show ?thesis using Some by (simp add: handleCallUno_def allCards_def)
qed

lemma handlePassTurn_cards: "allCards (rstate (handlePassTurn now s playerId)) = allCards s"
  by (simp add: handlePassTurn_def Let_def allCards_advanceTurn split: prod.splits)

lemma handsOf_filter:
  "handsOf (filter (\<lambda>(k, p). k \<in> A) ps) + handsOf (filter (\<lambda>(k, p). k \<notin> A) ps)
     = handsOf ps"
  by (induction ps) (auto simp: handsOf_def)

lemma matchLeave_cards:
  "allCards (rstate (matchLeave s presences))
     + handsOf (filter (\<lambda>(k, p). k \<in> set presences) (players s)) = allCards s"
proof -
  let ?stay = "filter (\<lambda>(k, p). k \<notin> set presences) (players s)"
  have h: "handsOf (filter (\<lambda>(k, p). k \<in> set presences) (players s)) + handsOf ?stay
           = handsOf (players s)"
    by (rule handsOf_filter)
  have "allCards (rstate (matchLeave s presences)) = mset (deck s) + mset (discardPile s) + handsOf ?stay"
    by (simp add: matchLeave_def leaveLoop_result allCards_def Let_def)
  then show ?thesis using h by (simp add: allCards_def ac_simps)
qed

text \<open>
  C1 (as amended). \<open>createDeck\<close> builds 108 cards: per color one 0, two of each of 1 to
  9 and two of each of skip, reverse and draw-two, and four wild and four
  wild-draw-four cards. After \<open>startGame\<close> with two players, the multiset union of the
  deck, the discard pile and the hands is that composition less the wild cards that
  the initial flip popped before it reached the first card that is not wild. From
  then on the union is kept by every play of a player (with its card effects, and when
  it ends the game), by \<open>applyCardEffects\<close>, by \<open>call_uno\<close> and \<open>pass_turn\<close>, by a
  reshuffle of an empty deck from a non-empty discard pile, by a draw of a player of the
  match that finds a card (the deck is non-empty, or the discard pile holds at least
  two cards), and by the forced move of the timer: always when that move is a play or
  nothing, and when it is a draw, if the draw finds a card. A leave takes the hands of
  the leaving players out of the union.
\<close>

theorem cards_of_a_match:
  assumes "distinct (map fst (players s))"
  shows "length createDeck = 108
   \<and> (\<forall>c \<in> set colors.
         count (mset createDeck) (Some (mkCard c Number (Some 0))) = 1
         \<and> (\<forall>n \<in> set [1..9]. count (mset createDeck) (Some (mkCard c Number (Some n))) = 2)
         \<and> (\<forall>a \<in> set actionTypes. count (mset createDeck) (Some (mkCard c a None)) = 2))
   \<and> count (mset createDeck) (Some (mkCard WildColor Wild None)) = 4
   \<and> count (mset createDeck) (Some (mkCard WildColor WildDrawFour None)) = 4
   \<and> (length (players s) = 2 \<longrightarrow>
         allCards (rstate (startGame rnd now s)) + mset (flippedWilds rnd s) = mset createDeck
         \<and> (\<forall>w \<in> set (flippedWilds rnd s). isWildSlot w))
   \<and> allCards (rstate (handlePlayCard now s playerId dcard)) = allCards s
   \<and> allCards (fst (applyCardEffects now s crd)) = allCards s
   \<and> (deck s = [] \<and> discardPile s \<noteq> [] \<longrightarrow> allCards (reshuffleDeck rnd s) = allCards s)
   \<and> (deck s \<noteq> [] \<or> 2 \<le> length (discardPile s) \<longrightarrow>
         map_of (players s) playerId \<noteq> None \<longrightarrow>
         allCards (rstate (handleDrawCard rnd now s playerId)) = allCards s)
   \<and> ((autoPlayDraws s \<longrightarrow> deck s \<noteq> [] \<or> 2 \<le> length (discardPile s)) \<longrightarrow>
         allCards (rstate (handleAutoPlay rnd now s)) = allCards s)
   \<and> allCards (rstate (handleCallUno s playerId)) = allCards s
   \<and> allCards (rstate (handlePassTurn now s playerId)) = allCards s
   \<and> allCards (rstate (matchLeave s presences))
         + handsOf (filter (\<lambda>(k, p). k \<in> set presences) (players s)) = allCards s"
proof -
  have start: "length (players s) = 2 \<longrightarrow>
         allCards (rstate (startGame rnd now s)) + mset (flippedWilds rnd s) = mset createDeck
         \<and> (\<forall>w \<in> set (flippedWilds rnd s). isWildSlot w)"
  proof
    assume two: "length (players s) = 2"
    have "\<forall>w \<in> set (flippedWilds rnd s). isWildSlot w"
      by (auto simp: flippedWilds_def dest: set_takeWhileD)
    with startGame_cards [OF two] show "allCards (rstate (startGame rnd now s)) + mset (flippedWilds rnd s) = mset createDeck
         \<and> (\<forall>w \<in> set (flippedWilds rnd s). isWildSlot w)" by simp
  qed
  have play: "allCards (rstate (handlePlayCard now s playerId dcard)) = allCards s"
    using handlePlayCard_cards [OF assms] .
  have eff: "allCards (fst (applyCardEffects now s crd)) = allCards s"
    using applyCardEffects_cards [OF assms] by simp
  have resh: "deck s = [] \<and> discardPile s \<noteq> [] \<longrightarrow> allCards (reshuffleDeck rnd s) = allCards s"
    using reshuffleDeck_cards by simp
  have draw: "deck s \<noteq> [] \<or> 2 \<le> length (discardPile s) \<longrightarrow>
         map_of (players s) playerId \<noteq> None \<longrightarrow>
         allCards (rstate (handleDrawCard rnd now s playerId)) = allCards s"
  proof (intro impI)
    assume c: "deck s \<noteq> [] \<or> 2 \<le> length (discardPile s)"
      and "map_of (players s) playerId \<noteq> None"
    then obtain p where p: "map_of (players s) playerId = Some p" by auto
    from drawFor_cards [OF assms p c]
    show "allCards (rstate (handleDrawCard rnd now s playerId)) = allCards s"
      by (simp add: handleDrawCard_def)
  qed
  have auto: "(autoPlayDraws s \<longrightarrow> deck s \<noteq> [] \<or> 2 \<le> length (discardPile s)) \<longrightarrow>
         allCards (rstate (handleAutoPlay rnd now s)) = allCards s"
    using handleAutoPlay_cards [OF assms] by simp
  have uno: "allCards (rstate (handleCallUno s playerId)) = allCards s"
    using handleCallUno_cards [OF assms] .
  have pass: "allCards (rstate (handlePassTurn now s playerId)) = allCards s"
    by (rule handlePassTurn_cards)
  have leave: "allCards (rstate (matchLeave s presences))
         + handsOf (filter (\<lambda>(k, p). k \<in> set presences) (players s)) = allCards s"
    by (rule matchLeave_cards)
  from createDeck_composition start play eff resh draw auto uno pass leave
  show ?thesis by (intro conjI) simp_all
qed

theorem cards_of_a_match_witness:
  "allCards (rstate (startGame (\<lambda>i. i) 1000 tableJoined)) = mset createDeck
   \<and> allCards (rstate (handlePlayCard 5 tableMid ''a'' redDrawTwo)) = allCards tableMid
   \<and> allCards (fst (applyCardEffects 5 tableMid redDrawTwo)) = allCards tableMid
   \<and> allCards (reshuffleDeck (\<lambda>i. 0) tableEmptyDeck) = allCards tableEmptyDeck
   \<and> allCards (rstate (handleDrawCard (\<lambda>i. 0) 5 tableEmptyDeck ''a'')) = allCards tableEmptyDeck
   \<and> allCards (rstate (handleAutoPlay (\<lambda>i. 0) 5 tableEmptyDeck)) = allCards tableEmptyDeck
   \<and> autoPlayDraws tableEmptyDeck
   \<and> allCards (rstate (handleAutoPlay (\<lambda>i. 0) 5 tableExhaustedPlayable))
       = allCards tableExhaustedPlayable
   \<and> \<not> autoPlayDraws tableExhaustedPlayable
   \<and> allCards (rstate (handleCallUno tableMid ''b'')) = allCards tableMid
   \<and> allCards (rstate (handlePassTurn 5 tableMid ''a'')) = allCards tableMid
   \<and> allCards (rstate (matchLeave tableMid [''b''])) + mset [blueSkip, yellow9] = allCards tableMid"
proof -
  have dj: "distinct (map fst (players tableJoined))" by code_simp
  have two: "length (players tableJoined) = 2" by code_simp
  have fw: "flippedWilds (\<lambda>i. i) tableJoined = []" by code_simp
  have dm: "distinct (map fst (players tableMid))" by code_simp
  have de: "distinct (map fst (players tableEmptyDeck))" by code_simp
  have dx: "distinct (map fst (players tableExhaustedPlayable))" by code_simp
  have e1: "deck tableEmptyDeck = [] \<and> discardPile tableEmptyDeck \<noteq> []" by code_simp
  have e2: "deck tableEmptyDeck \<noteq> [] \<or> 2 \<le> length (discardPile tableEmptyDeck)" by code_simp
  have e3: "map_of (players tableEmptyDeck) ''a'' \<noteq> None" by code_simp
  have e4: "autoPlayDraws tableEmptyDeck" by code_simp
  have x1: "\<not> autoPlayDraws tableExhaustedPlayable" by code_simp
  have lv: "handsOf (filter (\<lambda>(k, p). k \<in> set [''b'']) (players tableMid)) = mset [blueSkip, yellow9]"
    by (simp add: tableMid_def demoState_def demoPlayer_def handsOf_def)
  from cards_of_a_match [OF dj, where rnd = "\<lambda>i. i" and now = 1000] two fw
  have a: "allCards (rstate (startGame (\<lambda>i. i) 1000 tableJoined)) = mset createDeck" by simp
  from cards_of_a_match [OF dm, where now = 5 and playerId = "''a''" and dcard = redDrawTwo
      and crd = redDrawTwo and presences = "[''b'']"] lv
  have b: "allCards (rstate (handlePlayCard 5 tableMid ''a'' redDrawTwo)) = allCards tableMid"
    "allCards (fst (applyCardEffects 5 tableMid redDrawTwo)) = allCards tableMid"
    "allCards (rstate (handlePassTurn 5 tableMid ''a'')) = allCards tableMid"
    "allCards (rstate (matchLeave tableMid [''b''])) + mset [blueSkip, yellow9] = allCards tableMid"
    by simp_all
  from cards_of_a_match [OF dm, where playerId = "''b''"]
  have b': "allCards (rstate (handleCallUno tableMid ''b'')) = allCards tableMid" by simp
  from cards_of_a_match [OF de, where rnd = "\<lambda>i. 0" and now = 5 and playerId = "''a''"] e1 e2 e3
  have c: "allCards (reshuffleDeck (\<lambda>i. 0) tableEmptyDeck) = allCards tableEmptyDeck"
    "allCards (rstate (handleDrawCard (\<lambda>i. 0) 5 tableEmptyDeck ''a'')) = allCards tableEmptyDeck"
    "allCards (rstate (handleAutoPlay (\<lambda>i. 0) 5 tableEmptyDeck)) = allCards tableEmptyDeck"
    by simp_all
  from cards_of_a_match [OF dx, where rnd = "\<lambda>i. 0" and now = 5] x1
  have d: "allCards (rstate (handleAutoPlay (\<lambda>i. 0) 5 tableExhaustedPlayable))
           = allCards tableExhaustedPlayable" by simp
  from a b b' c d e4 x1 show ?thesis by simp
qed

text \<open>
  The claim as stated fails twice. At the start of the game: two players join a fresh
  match, and the shuffle leaves a wild-draw-four on top of the deck after the deal; the
  initial flip pops it and puts it nowhere, so the started match holds 107 cards. At a
  leave: in a match started with all 108 cards, player b leaves, and the seven cards of
  that hand are gone with the player object.
\<close>

theorem cards_leave_the_union_counterexample:
  "allCards (rstate (matchJoin (\<lambda>i. if i = 107 then 93 else i) 1000 matchInit
                       [(''a'', ''Ann''), (''b'', ''Bob'')])) \<noteq> mset createDeck
   \<and> size (allCards (rstate (matchJoin (\<lambda>i. if i = 107 then 93 else i) 1000 matchInit
                       [(''a'', ''Ann''), (''b'', ''Bob'')]))) = 107
   \<and> gamePhase (rstate (matchJoin (\<lambda>i. if i = 107 then 93 else i) 1000 matchInit
                       [(''a'', ''Ann''), (''b'', ''Bob'')])) = Playing
   \<and> size (allCards (rstate (matchJoin (\<lambda>i. i) 1000 matchInit
                       [(''a'', ''Ann''), (''b'', ''Bob'')]))) = 108
   \<and> size (allCards (rstate (matchLeave
               (rstate (matchJoin (\<lambda>i. i) 1000 matchInit [(''a'', ''Ann''), (''b'', ''Bob'')]))
               [''b'']))) = 101"
proof -
  let ?r = "matchJoin (\<lambda>i. if i = 107 then 93 else i) 1000 matchInit [(''a'', ''Ann''), (''b'', ''Bob'')]"
  let ?q = "matchJoin (\<lambda>i. i) 1000 matchInit [(''a'', ''Ann''), (''b'', ''Bob'')]"
  have n: "size (allCards (rstate ?r)) = 107" by code_simp
  have p: "gamePhase (rstate ?r) = Playing" by code_simp
  have f: "size (allCards (rstate ?q)) = 108" by code_simp
  have l: "size (allCards (rstate (matchLeave (rstate ?q) [''b'']))) = 101" by code_simp
  have "size (mset createDeck) = 108" using createDeck_facts(1) by simp
  with n have "allCards (rstate ?r) \<noteq> mset createDeck" by auto
  with n p f l show ?thesis by simp
qed

end
